theory Spec2Isabelle
  imports Main "HOL-Library.Word" "HOL-Library.Char_ord" "HOL-Library.List_Lexorder"
begin

section \<open>incfg: a typed configuration-option registry\<close>

text \<open>
  A shallow embedding of \<^verbatim>\<open>incfg.hpp\<close> and \<^verbatim>\<open>incfg.cpp\<close>.
  A \<^verbatim>\<open>std::string\<close> is a \<open>string\<close> (a list of bytes), the two exception classes
  are the constructors of \<open>exn\<close> carrying their \<^verbatim>\<open>what()\<close> message, a call that can
  throw returns \<open>exn + 'a\<close>, the \<^verbatim>\<open>std::map\<close> of the registry is an association list
  kept in key order, and an \<^verbatim>\<open>Option*\<close> is an \<open>OptionRec option\<close> whose \<open>None\<close> is
  the null pointer.
\<close>

subsection \<open>Characters and exceptions\<close>

definition dquote :: char where
  "dquote = CHR 0x22"

definition newline :: char where
  "newline = CHR 0x0A"

definition carriage_return :: char where
  "carriage_return = CHR 0x0D"

definition nul :: char where
  "nul = CHR 0x00"

text \<open>\<^verbatim>\<open>std::endl\<close> writes a newline (and flushes).\<close>

definition endl :: string where
  "endl = [newline]"

text \<open>
  \<^verbatim>\<open>StringParseException\<close> and \<^verbatim>\<open>ConfigOptionsLoadException\<close>, each with its message.
  \<open>UndefinedBehaviour\<close> stands for what C++ leaves undefined: dereferencing a null
  \<^verbatim>\<open>Option*\<close>, or building a \<^verbatim>\<open>std::string\<close> from \<^verbatim>\<open>argv[i]\<close> where \<^verbatim>\<open>i\<close> is not
  the index of an argument string.
\<close>

datatype exn =
    StringParseException string
  | ConfigOptionsLoadException string
  | UndefinedBehaviour

subsection \<open>\<^verbatim>\<open>std::string\<close> operations\<close>

text \<open>\<^verbatim>\<open>s.find_first_of(c)\<close>: the first index of \<open>c\<close>, \<open>None\<close> for \<^verbatim>\<open>npos\<close>.\<close>

fun find_first_of :: "string \<Rightarrow> char \<Rightarrow> nat option" where
  "find_first_of [] c = None"
| "find_first_of (x # xs) c =
     (if x = c then Some 0
      else case find_first_of xs c of None \<Rightarrow> None | Some i \<Rightarrow> Some (Suc i))"

text \<open>\<^verbatim>\<open>s.find_last_of(c)\<close>: the last index of \<open>c\<close>, \<open>None\<close> for \<^verbatim>\<open>npos\<close>.\<close>

fun find_last_of :: "string \<Rightarrow> char \<Rightarrow> nat option" where
  "find_last_of [] c = None"
| "find_last_of (x # xs) c =
     (case find_last_of xs c of
        Some i \<Rightarrow> Some (Suc i)
      | None \<Rightarrow> if x = c then Some 0 else None)"

text \<open>\<^verbatim>\<open>s.substr(pos, n)\<close> for \<open>pos \<le> length s\<close> (every call of the source is).\<close>

definition substr :: "string \<Rightarrow> nat \<Rightarrow> nat \<Rightarrow> string" where
  "substr s pos n = take n (drop pos s)"

text \<open>
  \<^verbatim>\<open>s.erase(std::remove(s.begin()+i, s.begin()+j, c), s.begin()+j)\<close>: the characters
  equal to \<open>c\<close> are removed from the positions \<open>i..<j\<close>.
\<close>

definition erase_remove :: "string \<Rightarrow> nat \<Rightarrow> nat \<Rightarrow> char \<Rightarrow> string" where
  "erase_remove s i j c =
     take i s @ filter (\<lambda>x. x \<noteq> c) (take (j - i) (drop i s)) @ drop j s"

text \<open>\<^verbatim>\<open>s[0]\<close>: the first character, and the terminating NUL on the empty string.\<close>

definition front_char :: "string \<Rightarrow> char" where
  "front_char s = (case s of [] \<Rightarrow> nul | c # _ \<Rightarrow> c)"

subsection \<open>Decimal output and input of \<^verbatim>\<open>std::stringstream\<close>\<close>

definition digit_char :: "nat \<Rightarrow> char" where
  "digit_char d = char_of (48 + d)"

fun show_nat :: "nat \<Rightarrow> string" where
  "show_nat n =
     (if n < 10 then [digit_char n] else show_nat (n div 10) @ [digit_char (n mod 10)])"

declare show_nat.simps [simp del]

definition show_int :: "int \<Rightarrow> string" where
  "show_int i = (if i < 0 then CHR ''-'' # show_nat (nat (- i)) else show_nat (nat i))"

definition is_digit :: "char \<Rightarrow> bool" where
  "is_digit c = (48 \<le> (of_char c :: nat) \<and> (of_char c :: nat) \<le> 57)"

definition digit_val :: "char \<Rightarrow> nat" where
  "digit_val c = of_char c - 48"

definition read_nat :: "string \<Rightarrow> nat" where
  "read_nat ds = foldl (\<lambda>acc c. 10 * acc + digit_val c) 0 ds"

text \<open>\<^verbatim>\<open>isspace\<close> in the "C" locale: space, \<^verbatim>\<open>\t \n \v \f \r\<close>.\<close>

definition isspace :: "char \<Rightarrow> bool" where
  "isspace c = (c = CHR '' '' \<or> (9 \<le> (of_char c :: nat) \<and> (of_char c :: nat) \<le> 13))"

text \<open>
  \<^verbatim>\<open>ss >> val\<close> for an \<^verbatim>\<open>int\<close>: leading white space is skipped, an optional sign and
  the longest run of decimal digits are read; the extraction fails (\<open>None\<close>) when there is
  no digit or the number does not fit a 32-bit \<^verbatim>\<open>int\<close>. What follows the digits stays in
  the stream unread.
\<close>

definition extract_int :: "string \<Rightarrow> 32 word option" where
  "extract_int str =
     (let s = dropWhile isspace str;
          neg = (s \<noteq> [] \<and> hd s = CHR ''-'');
          s1 = (if s \<noteq> [] \<and> (hd s = CHR ''-'' \<or> hd s = CHR ''+'') then tl s else s);
          ds = takeWhile is_digit s1;
          v = (if neg then - int (read_nat ds) else int (read_nat ds))
      in if ds = [] \<or> v < - (2 ^ 31) \<or> 2 ^ 31 \<le> v then None
         else Some (word_of_int v))"

subsection \<open>The value codec: \<^verbatim>\<open>to_string_helper\<close> and \<^verbatim>\<open>from_string_helper\<close>\<close>

text \<open>
  The template parameter \<^verbatim>\<open>TYPE\<close> of an option: \<^verbatim>\<open>int\<close>, \<^verbatim>\<open>bool\<close>,
  \<^verbatim>\<open>std::string\<close>, or any other type (\<^verbatim>\<open>double\<close>, \<^verbatim>\<open>unsigned int\<close>, a type of the
  user). A value of another type enters the library only through the generic templates,
  that is through its own stream operators; \<open>StreamVal v wr rd\<close> is the value \<open>v\<close>
  with the text \<^verbatim>\<open>ss << v\<close> writes (\<open>wr\<close>) and the value \<^verbatim>\<open>ss >> val\<close> reads from a
  text (\<open>rd\<close>, \<open>None\<close> when the stream fails). \<^verbatim>\<open>operator==\<close> of the type is taken to
  be the equality of its values.
\<close>

datatype 'a cfg_value =
    IntVal "32 word"
  | BoolVal bool
  | StringVal string
  | StreamVal 'a "'a \<Rightarrow> string" "string \<Rightarrow> 'a option"

text \<open>The generic converters, at \<^verbatim>\<open>int\<close>.\<close>

definition to_string_helper_int :: "32 word \<Rightarrow> string" where
  "to_string_helper_int v = show_int (sint v)"

definition from_string_helper_int :: "string \<Rightarrow> exn + 32 word" where
  "from_string_helper_int str =
     (case extract_int str of
        None \<Rightarrow> Inl (StringParseException (''Unable to parse '' @ str @ '' to its defined type''))
      | Some v \<Rightarrow> Inr v)"

text \<open>The specialisations for \<^verbatim>\<open>bool\<close>.\<close>

definition from_string_helper_bool :: "string \<Rightarrow> exn + bool" where
  "from_string_helper_bool str =
     (if str \<noteq> ''true'' \<and> str \<noteq> ''false''
      then Inl (StringParseException
                 (''Unable to parse '' @ str @ '' to '' @ [dquote] @ ''true'' @ [dquote]
                    @ '' or '' @ [dquote] @ ''false'' @ [dquote]))
      else Inr (str = ''true''))"

definition to_string_helper_bool :: "bool \<Rightarrow> string" where
  "to_string_helper_bool v = (if v then ''true'' else ''false'')"

text \<open>The specialisations for \<^verbatim>\<open>std::string\<close>.\<close>

definition from_string_helper_string :: "string \<Rightarrow> exn + string" where
  "from_string_helper_string str =
     (if length str < 2 then Inr str
      else if str ! 0 = dquote \<and> str ! (length str - 1) = dquote
           then Inr (substr str 1 (length str - 2))
      else Inr str)"

definition to_string_helper_string :: "string \<Rightarrow> string" where
  "to_string_helper_string v = [dquote] @ v @ [dquote]"

text \<open>The generic converters, at another type, by the type's stream operators.\<close>

definition from_string_helper_stream :: "string \<Rightarrow> (string \<Rightarrow> 'a option) \<Rightarrow> exn + 'a" where
  "from_string_helper_stream str rd =
     (case rd str of
        None \<Rightarrow> Inl (StringParseException (''Unable to parse '' @ str @ '' to its defined type''))
      | Some v \<Rightarrow> Inr v)"

definition to_string_helper_stream :: "'a \<Rightarrow> ('a \<Rightarrow> string) \<Rightarrow> string" where
  "to_string_helper_stream v wr = wr v"

text \<open>
  \<^verbatim>\<open>from_string_helper<TYPE>(str, mytype)\<close>: the second argument only selects the
  instance.
\<close>

definition from_string_helper :: "string \<Rightarrow> 'a cfg_value \<Rightarrow> exn + 'a cfg_value" where
  "from_string_helper str mytype =
     (case mytype of
        IntVal _ \<Rightarrow> map_sum id IntVal (from_string_helper_int str)
      | BoolVal _ \<Rightarrow> map_sum id BoolVal (from_string_helper_bool str)
      | StringVal _ \<Rightarrow> map_sum id StringVal (from_string_helper_string str)
      | StreamVal _ wr rd \<Rightarrow>
          map_sum id (\<lambda>v. StreamVal v wr rd) (from_string_helper_stream str rd))"

definition to_string_helper :: "'a cfg_value \<Rightarrow> string" where
  "to_string_helper v =
     (case v of
        IntVal i \<Rightarrow> to_string_helper_int i
      | BoolVal b \<Rightarrow> to_string_helper_bool b
      | StringVal s \<Rightarrow> to_string_helper_string s
      | StreamVal x wr rd \<Rightarrow> to_string_helper_stream x wr)"

definition is_boolean :: "'a cfg_value \<Rightarrow> bool" where
  "is_boolean v = (case v of BoolVal _ \<Rightarrow> True | _ \<Rightarrow> False)"

subsection \<open>The option class generated by \<^verbatim>\<open>INCFG_REQUIRE\<close>\<close>

record 'a OptionRec =
  name :: string
  description :: string
  val :: "'a cfg_value"
  is_def :: bool

text \<open>The constructor \<^verbatim>\<open>incfg_NAME_Option(TYPE v)\<close>.\<close>

definition new_option :: "string \<Rightarrow> string \<Rightarrow> 'a cfg_value \<Rightarrow> 'a OptionRec" where
  "new_option nm descr v = \<lparr>name = nm, description = descr, val = v, is_def = True\<rparr>"

definition set_value :: "'a OptionRec \<Rightarrow> 'a cfg_value \<Rightarrow> 'a OptionRec" where
  "set_value opt new_value =
     opt\<lparr>is_def := (is_def opt \<and> new_value = val opt), val := new_value\<rparr>"

definition parse_value_from_str :: "'a OptionRec \<Rightarrow> string \<Rightarrow> exn + 'a OptionRec" where
  "parse_value_from_str opt str =
     (case from_string_helper str (val opt) of
        Inl e \<Rightarrow> Inl e
      | Inr v \<Rightarrow> Inr (set_value opt v))"

definition get_value_as_str :: "'a OptionRec \<Rightarrow> string" where
  "get_value_as_str opt = to_string_helper (val opt)"

definition is_default :: "'a OptionRec \<Rightarrow> bool" where
  "is_default opt = is_def opt"

definition is_bool :: "'a OptionRec \<Rightarrow> bool" where
  "is_bool opt = is_boolean (val opt)"

text \<open>
  A caller's operation on one option: \<^verbatim>\<open>set\<close> (through \<^verbatim>\<open>INCFG_SET\<close>) or
  \<^verbatim>\<open>parse_value_from_str\<close> (through a loader). A parse that throws leaves the
  object as it was: the exception leaves \<^verbatim>\<open>from_string_helper\<close> before \<^verbatim>\<open>set\<close> runs.
\<close>

datatype 'a option_op = Set "'a cfg_value" | Parse string

fun apply_op :: "'a OptionRec \<Rightarrow> 'a option_op \<Rightarrow> 'a OptionRec" where
  "apply_op opt (Set v) = set_value opt v"
| "apply_op opt (Parse s) =
     (case parse_value_from_str opt s of Inl _ \<Rightarrow> opt | Inr opt' \<Rightarrow> opt')"

definition apply_ops :: "'a OptionRec \<Rightarrow> 'a option_op list \<Rightarrow> 'a OptionRec" where
  "apply_ops opt ops = foldl apply_op opt ops"

subsection \<open>The registry: \<^verbatim>\<open>ConfigOptions\<close>\<close>

text \<open>
  The only data member of \<^verbatim>\<open>ConfigOptions\<close> is
  \<^verbatim>\<open>std::map< std::string, Option* > options\<close>: a list of (key, pointer) pairs in the
  order of the map's iteration, which is the order \<open><\<close> of \<^verbatim>\<open>std::string\<close>
  (lexicographic on bytes). The objects pointed to are kept in the entries, so a call
  through the pointer that changes the object replaces the entry's object.
\<close>

type_synonym 'a registry = "(string \<times> 'a OptionRec option) list"

text \<open>\<^verbatim>\<open>options.find(k)\<close>: \<open>None\<close> is \<^verbatim>\<open>options.end()\<close>.\<close>

fun map_find :: "string \<Rightarrow> (string \<times> 'v) list \<Rightarrow> 'v option" where
  "map_find k [] = None"
| "map_find k ((k', v) # m) = (if k = k' then Some v else map_find k m)"

text \<open>\<^verbatim>\<open>options[k] = v\<close>: the entry of \<open>k\<close> is overwritten, or inserted at its place.\<close>

fun map_assign :: "string \<Rightarrow> 'v \<Rightarrow> (string \<times> 'v) list \<Rightarrow> (string \<times> 'v) list" where
  "map_assign k v [] = [(k, v)]"
| "map_assign k v ((k', v') # m) =
     (if k < k' then (k, v) # (k', v') # m
      else if k = k' then (k', v) # m
      else (k', v') # map_assign k v m)"

text \<open>
  \<^verbatim>\<open>options[k]\<close> read: a key that is not in the map is inserted with a
  value-initialised pointer, the null pointer.
\<close>

definition map_index :: "string \<Rightarrow> 'a registry \<Rightarrow> 'a OptionRec option \<times> 'a registry" where
  "map_index k m =
     (case map_find k m of
        Some p \<Rightarrow> (p, m)
      | None \<Rightarrow> (None, map_assign k None m))"

definition add_option :: "'a OptionRec \<Rightarrow> 'a registry \<Rightarrow> 'a registry" where
  "add_option opt options =
     (if map_find (name opt) options = None
      then map_assign (name opt) (Some opt) options
      else options)"

definition get :: "string \<Rightarrow> 'a registry \<Rightarrow> 'a OptionRec option \<times> 'a registry" where
  "get nm options = map_index nm options"

definition size_options :: "'a registry \<Rightarrow> nat" where
  "size_options options = length options"

text \<open>
  \<^verbatim>\<open>to_config_string\<close>: the loop over the map, \<open>ss\<close> is the text written to the
  \<^verbatim>\<open>stringstream\<close> so far. \<^verbatim>\<open>it->second->description\<close> on a null pointer is undefined.
\<close>

fun to_config_string_loop :: "'a registry \<Rightarrow> string \<Rightarrow> exn + string" where
  "to_config_string_loop [] ss = Inr ss"
| "to_config_string_loop ((first, None) # it) ss = Inl UndefinedBehaviour"
| "to_config_string_loop ((first, Some second) # it) ss =
     (let ss1 = (if length (description second) > 0
                 then ss @ ''# '' @ description second @ endl @ ''# '' @ endl
                 else ss);
          ss2 = ss1 @ (if is_default second then ''#'' else '''') @ first @ ''=''
                  @ get_value_as_str second @ endl @ endl
      in to_config_string_loop it ss2)"

definition to_config_string :: "'a registry \<Rightarrow> exn + string" where
  "to_config_string options = to_config_string_loop options []"

text \<open>
  The registries a program can be in when it only declares options (\<^verbatim>\<open>INCFG_REQUIRE\<close>
  runs \<^verbatim>\<open>add_option\<close> from the constructor) and assigns values (\<^verbatim>\<open>INCFG_SET\<close>, the
  loaders).
\<close>

inductive populated :: "'a registry \<Rightarrow> bool" where
  populated_empty: "populated []"
| populated_add: "populated m \<Longrightarrow> populated (add_option opt m)"
| populated_set:
    "populated m \<Longrightarrow> map_find k m = Some (Some opt) \<Longrightarrow>
     populated (map_assign k (Some (set_value opt v)) m)"

subsection \<open>The loaders' exceptions\<close>

text \<open>The \<^verbatim>\<open>throw\<close> statements of \<^verbatim>\<open>incfg.cpp\<close>, named by the error kind they report.\<close>

definition InvalidOption :: "string \<Rightarrow> exn" where
  "InvalidOption key = ConfigOptionsLoadException (''Invalid configuration option: '' @ key)"

definition UnknownKey :: "string \<Rightarrow> exn" where
  "UnknownKey key = ConfigOptionsLoadException (''Unexpected key: '' @ key)"

definition MissingValue :: "string \<Rightarrow> exn" where
  "MissingValue key =
     ConfigOptionsLoadException (''A value is expected for configuration option '' @ key)"

definition InvalidValue :: "string \<Rightarrow> string \<Rightarrow> exn" where
  "InvalidValue v key = ConfigOptionsLoadException (v @ '' is an invalid value for key '' @ key)"

definition IOError :: exn where
  "IOError = ConfigOptionsLoadException ''IO Error.''"

text \<open>The message is built from \<^verbatim>\<open>unsigned int linenum\<close>, printed in decimal.\<close>

definition StructuralParseError :: "32 word \<Rightarrow> exn" where
  "StructuralParseError linenum =
     ConfigOptionsLoadException
       (''Parse error at line '' @ show_nat (unat linenum)
          @ '': No key found (<key> = <value> expected)'')"

text \<open>
  The handler of \<^verbatim>\<open>StringParseException\<close> in the stream loader: it prints
  \<^verbatim>\<open>linenum-1\<close>, an \<^verbatim>\<open>unsigned int\<close> (so the subtraction wraps at zero).
\<close>

definition ConfigFileError :: "string \<Rightarrow> 32 word \<Rightarrow> string \<Rightarrow> exn" where
  "ConfigFileError key linenum what =
     StringParseException
       (''Config file error for key <'' @ key @ ''> (Line '' @ show_nat (unat (linenum - 1))
          @ ''): '' @ what)"

subsection \<open>The command-line loader\<close>

text \<open>
  \<^verbatim>\<open>std::string key( argv[idx] )\<close>: \<open>argv\<close> holds the argument strings; an index past
  them reads the terminating null pointer of \<^verbatim>\<open>argv\<close>, or past the array.
\<close>

definition argv_string :: "string list \<Rightarrow> nat \<Rightarrow> exn + string" where
  "argv_string argv i = (if i < length argv then Inr (argv ! i) else Inl UndefinedBehaviour)"

function load_args_loop :: "nat \<Rightarrow> int \<Rightarrow> string list \<Rightarrow> 'a registry \<Rightarrow> exn + 'a registry" where
  "load_args_loop idx argc argv options =
     (if \<not> int idx < argc then Inr options
      else
        (case argv_string argv idx of
           Inl e \<Rightarrow> Inl e
         | Inr key0 \<Rightarrow>
             (if length key0 < 3 then Inl (InvalidOption key0)
              else if key0 ! 0 \<noteq> CHR ''-'' \<and> key0 ! 1 \<noteq> CHR ''-'' then Inl (InvalidOption key0)
              else
                (let key = substr key0 2 (length key0 - 1) in
                 (case map_find key options of
                    None \<Rightarrow> Inl (UnknownKey key)
                  | Some None \<Rightarrow> Inl UndefinedBehaviour
                  | Some (Some opt) \<Rightarrow>
                      (if is_bool opt then
                         (case parse_value_from_str opt ''true'' of
                            Inl e \<Rightarrow> Inl e
                          | Inr opt' \<Rightarrow>
                              load_args_loop (idx + 1) argc argv
                                (map_assign key (Some opt') options))
                       else if int idx = argc then Inl (MissingValue key)
                       else
                         (case argv_string argv (idx + 1) of
                            Inl e \<Rightarrow> Inl e
                          | Inr v \<Rightarrow>
                              (if length v > 1 \<and> v ! 0 = CHR ''-'' \<and> v ! 1 = CHR ''-''
                               then Inl (InvalidValue v key)
                               else
                                 (case parse_value_from_str opt v of
                                    Inl e \<Rightarrow> Inl e
                                  | Inr opt' \<Rightarrow>
                                      load_args_loop (idx + 2) argc argv
                                        (map_assign key (Some opt') options))))))))))"
  by pat_completeness auto
termination
  by (relation "measure (\<lambda>(idx, argc, argv, options). nat argc - idx)") auto

declare load_args_loop.simps [simp del]

definition load_args :: "int \<Rightarrow> string list \<Rightarrow> 'a registry \<Rightarrow> exn + 'a registry" where
  "load_args argc argv options =
     (if argc < 2 then Inr options else load_args_loop 1 argc argv options)"

subsection \<open>The text-stream loader\<close>

text \<open>
  An input stream over a string: the characters not yet read and the two state bits the
  loader tests. \<^verbatim>\<open>std::getline\<close> on a stream that is not good sets \<^verbatim>\<open>failbit\<close> and
  leaves the buffer; otherwise it reads up to and without the next newline, sets
  \<^verbatim>\<open>eofbit\<close> when it meets the end of the input, and \<^verbatim>\<open>failbit\<close> too when it
  extracted no character at all.
\<close>

record istream =
  content :: string
  eofbit :: bool
  failbit :: bool

definition getline :: "istream \<Rightarrow> string \<Rightarrow> istream \<times> string" where
  "getline isr buff =
     (if eofbit isr \<or> failbit isr then (isr\<lparr>failbit := True\<rparr>, buff)
      else
        (case find_first_of (content isr) newline of
           Some i \<Rightarrow> (isr\<lparr>content := drop (Suc i) (content isr)\<rparr>, take i (content isr))
         | None \<Rightarrow>
             (if content isr = [] then (isr\<lparr>eofbit := True, failbit := True\<rparr>, [])
              else (isr\<lparr>content := [], eofbit := True\<rparr>, content isr))))"

text \<open>The test that skips a line: \<^verbatim>\<open>buff[0]\<close> is \<^verbatim>\<open>'#'\<close>, NUL, \<^verbatim>\<open>'\n'\<close> or \<^verbatim>\<open>'\r'\<close>.\<close>

definition is_skipped :: "string \<Rightarrow> bool" where
  "is_skipped buff =
     (front_char buff = CHR ''#'' \<or> front_char buff = nul \<or> front_char buff = newline
        \<or> front_char buff = carriage_return)"

text \<open>"Remove all spaces before and after a \<^verbatim>\<open>"\<close>": the two \<^verbatim>\<open>erase\<close> statements.\<close>

definition strip_spaces :: "string \<Rightarrow> string" where
  "strip_spaces buff =
     (let end_idx = (case find_first_of buff dquote of None \<Rightarrow> length buff | Some i \<Rightarrow> i);
          buff1 = erase_remove buff 0 end_idx CHR '' '';
          start_idx = (case find_last_of buff1 dquote of None \<Rightarrow> 0 | Some i \<Rightarrow> i)
      in erase_remove buff1 start_idx (length buff1) CHR '' '')"

definition add_if_possible :: "string \<Rightarrow> string \<Rightarrow> 'a registry \<Rightarrow> exn + 'a registry" where
  "add_if_possible key v options =
     (case map_find key options of
        None \<Rightarrow> Inl (UnknownKey key)
      | Some None \<Rightarrow> Inl UndefinedBehaviour
      | Some (Some opt) \<Rightarrow>
          (case parse_value_from_str opt v of
             Inl e \<Rightarrow> Inl e
           | Inr opt' \<Rightarrow> Inr (map_assign key (Some opt') options)))"

text \<open>The loop body after the spaces are removed: split at the first \<^verbatim>\<open>=\<close>, assign.\<close>

definition parse_line :: "string \<Rightarrow> 32 word \<Rightarrow> 'a registry \<Rightarrow> exn + 'a registry" where
  "parse_line buff linenum options =
     (case find_first_of buff CHR ''='' of
        None \<Rightarrow> Inl (StructuralParseError linenum)
      | Some eq_idx \<Rightarrow>
          (if eq_idx = 0 then Inl (StructuralParseError linenum)
           else
             (let key = substr buff 0 eq_idx;
                  v = substr buff (eq_idx + 1) (length buff)
              in (case add_if_possible key v options of
                    Inl (StringParseException what) \<Rightarrow> Inl (ConfigFileError key linenum what)
                  | Inl e \<Rightarrow> Inl e
                  | Inr options' \<Rightarrow> Inr options'))))"

text \<open>
  The loop \<^verbatim>\<open>while( !_isr.eof() || !_isr.fail() )\<close>. It does not end on a stream whose
  \<^verbatim>\<open>failbit\<close> is set and whose \<^verbatim>\<open>eofbit\<close> is not, so the result is an \<open>option\<close>:
  \<open>None\<close> is a loop that never returns.
\<close>

partial_function (option) load_loop ::
  "istream \<Rightarrow> string \<Rightarrow> 32 word \<Rightarrow> 'a registry \<Rightarrow> (exn + 'a registry) option" where
  "load_loop isr buff linenum options =
     (if \<not> (\<not> eofbit isr \<or> \<not> failbit isr) then Some (Inr options)
      else if is_skipped buff then
        (case getline isr buff of
           (isr', buff') \<Rightarrow> load_loop isr' buff' (linenum + 1) options)
      else
        (case parse_line (strip_spaces buff) linenum options of
           Inl e \<Rightarrow> Some (Inl e)
         | Inr options' \<Rightarrow>
             (case getline isr (strip_spaces buff) of
                (isr', buff') \<Rightarrow> load_loop isr' buff' (linenum + 1) options')))"

declare load_loop.simps [code]

definition load_stream :: "istream \<Rightarrow> 'a registry \<Rightarrow> (exn + 'a registry) option" where
  "load_stream isr options =
     (if failbit isr then Some (Inl IOError)
      else (case getline isr [] of (isr', buff) \<Rightarrow> load_loop isr' buff 0 options))"

text \<open>\<^verbatim>\<open>load( std::string& )\<close>: an \<^verbatim>\<open>istringstream\<close> over the string, in the good state.\<close>

definition load_string :: "string \<Rightarrow> 'a registry \<Rightarrow> (exn + 'a registry) option" where
  "load_string str options =
     load_stream \<lparr>content = str, eofbit = False, failbit = False\<rparr> options"

subsection \<open>The options of \<^verbatim>\<open>test.cpp\<close>\<close>

text \<open>
  The registry after the static initialisers of \<^verbatim>\<open>test.cpp\<close> have run, without the
  \<^verbatim>\<open>double\<close> option \<^verbatim>\<open>opt2\<close>: no option of it has a type other than \<^verbatim>\<open>int\<close>,
  \<^verbatim>\<open>bool\<close> and \<^verbatim>\<open>std::string\<close>, so the type of such values is \<open>unit\<close> here.
\<close>

definition opt1 :: "unit OptionRec" where
  "opt1 = new_option ''opt1'' ''option 1'' (IntVal 10)"

definition opt3 :: "unit OptionRec" where
  "opt3 = new_option ''opt3'' ''option 3'' (StringVal ''opt3!'')"

definition opt4 :: "unit OptionRec" where
  "opt4 = new_option ''opt4'' ''boolean true option'' (BoolVal True)"

definition opt5 :: "unit OptionRec" where
  "opt5 = new_option ''opt5'' ''boolean false option'' (BoolVal False)"

definition test_options :: "unit registry" where
  "test_options = add_option opt5 (add_option opt4 (add_option opt3 (add_option opt1 [])))"

subsection \<open>The config-string format, as the specification words it\<close>

text \<open>
  The lines of one entry: when the description is not empty, the comment line
  \<^verbatim>\<open># <description>\<close> and a second comment line \<open>hash_line\<close>; then the assignment,
  commented out when the option is at its default; then an empty line. The
  specification writes a bare \<^verbatim>\<open>#\<close> for \<open>hash_line\<close>.
\<close>

definition entry_lines :: "string \<Rightarrow> string \<Rightarrow> 'a OptionRec \<Rightarrow> string list" where
  "entry_lines hash_line key opt =
     (if description opt \<noteq> [] then [''# '' @ description opt, hash_line] else [])
       @ [(if is_default opt then ''#'' else '''') @ key @ ''='' @ get_value_as_str opt, '''']"

text \<open>Each line is ended by a newline.\<close>

definition unlines :: "string list \<Rightarrow> string" where
  "unlines ls = concat (map (\<lambda>l. l @ [newline]) ls)"

definition registry_lines :: "string \<Rightarrow> 'a registry \<Rightarrow> string list" where
  "registry_lines hash_line options =
     concat (map (\<lambda>(key, p). case p of Some opt \<Rightarrow> entry_lines hash_line key opt | None \<Rightarrow> [])
               options)"

definition config_text :: "string \<Rightarrow> 'a registry \<Rightarrow> string" where
  "config_text hash_line options = unlines (registry_lines hash_line options)"

text \<open>
  The space handling of the stream loader, as the specification words it: spaces are
  removed before the first double quote (from the whole line when there is none) and
  after the last double quote; what stands from the first to the last double quote is
  kept as it is.
\<close>

definition spec_strip_spaces :: "string \<Rightarrow> string" where
  "spec_strip_spaces line =
     (let no_space = (\<lambda>c. c \<noteq> CHR '' '');
          no_quote = (\<lambda>c. c \<noteq> dquote)
      in if dquote \<in> set line then
           (let before = takeWhile no_quote line;
                after = rev (takeWhile no_quote (rev line));
                quoted = take (length line - length before - length after)
                           (drop (length before) line)
            in filter no_space before @ quoted @ filter no_space after)
         else filter no_space line)"

text \<open>No entry of the registry holds the null pointer.\<close>

definition non_null :: "'a registry \<Rightarrow> bool" where
  "non_null m = list_all (\<lambda>e. snd e \<noteq> None) m"

text \<open>
  The registry of \<^verbatim>\<open>test.cpp\<close> after the \<^verbatim>\<open>INCFG_SET\<close> calls of the scenario "Loading a
  self-generated config string".
\<close>

definition changed_options :: "unit registry" where
  "changed_options =
     map_assign ''opt5'' (Some (set_value opt5 (BoolVal True)))
       (map_assign ''opt4'' (Some (set_value opt4 (BoolVal False)))
          (map_assign ''opt3'' (Some (set_value opt3 (StringVal ''test'')))
             (map_assign ''opt1'' (Some (set_value opt1 (IntVal 30))) test_options)))"

subsection \<open>Registries whose config string can be loaded again\<close>

text \<open>
  A key is the macro argument \<^verbatim>\<open>CONFIGNAME\<close>, which \<^verbatim>\<open>INCFG_REQUIRE\<close> also pastes into
  a class name: letters, digits and underscores.
\<close>

definition ident_char :: "char \<Rightarrow> bool" where
  "ident_char c =
     (c = CHR ''_'' \<or> is_digit c
        \<or> (65 \<le> (of_char c :: nat) \<and> (of_char c :: nat) \<le> 90)
        \<or> (97 \<le> (of_char c :: nat) \<and> (of_char c :: nat) \<le> 122))"

definition is_option_name :: "string \<Rightarrow> bool" where
  "is_option_name k = (k \<noteq> [] \<and> list_all ident_char k)"

definition single_line :: "string \<Rightarrow> bool" where
  "single_line s = (newline \<notin> set s)"

text \<open>A character that is no space, no double quote and no newline.\<close>

definition plain_char :: "char \<Rightarrow> bool" where
  "plain_char c = (c \<noteq> CHR '' '' \<and> c \<noteq> dquote \<and> c \<noteq> newline)"

text \<open>
  A value whose text is read back as the value: a string holds no newline, and a value
  of another type is written by its \<^verbatim>\<open>operator<<\<close> as a text without space, double quote
  and newline from which its \<^verbatim>\<open>operator>>\<close> reads the value again (a \<^verbatim>\<open>double\<close> that six
  significant digits represent, as \<^verbatim>\<open>31.2\<close>). Every \<^verbatim>\<open>int\<close> and \<^verbatim>\<open>bool\<close> is such a
  value.
\<close>

definition reloadable_value :: "'a cfg_value \<Rightarrow> bool" where
  "reloadable_value v =
     (case v of
        StringVal s \<Rightarrow> single_line s
      | StreamVal x wr rd \<Rightarrow> list_all plain_char (wr x) \<and> rd (wr x) = Some x
      | _ \<Rightarrow> True)"

text \<open>
  An entry whose lines in the config string are read back as they were written: it
  points to an option, its key is an option name, its description holds no newline
  and its value is read back.
\<close>

definition reloadable :: "string \<times> 'a OptionRec option \<Rightarrow> bool" where
  "reloadable e =
     (case snd e of
        None \<Rightarrow> False
      | Some opt \<Rightarrow>
          is_option_name (fst e) \<and> single_line (description opt) \<and> reloadable_value (val opt))"

text \<open>Two values of the same instance of \<^verbatim>\<open>TYPE\<close>.\<close>

definition same_instance :: "'a cfg_value \<Rightarrow> 'a cfg_value \<Rightarrow> bool" where
  "same_instance v v' =
     (case v of
        IntVal _ \<Rightarrow> (case v' of IntVal _ \<Rightarrow> True | _ \<Rightarrow> False)
      | BoolVal _ \<Rightarrow> (case v' of BoolVal _ \<Rightarrow> True | _ \<Rightarrow> False)
      | StringVal _ \<Rightarrow> (case v' of StringVal _ \<Rightarrow> True | _ \<Rightarrow> False)
      | StreamVal _ wr rd \<Rightarrow>
          (case v' of StreamVal _ wr' rd' \<Rightarrow> wr' = wr \<and> rd' = rd | _ \<Rightarrow> False))"

text \<open>
  The registry a config string is loaded into holds the options of the registry it was
  written from: entry by entry the same key and an option of the same type. Where the
  written option is at its default, so that its assignment is commented out, the two
  options have the same value. That is so when the text is loaded into the registry it
  was written from, and when it is loaded into the registry as the static initialisers
  leave it.
\<close>

definition same_option ::
  "string \<times> 'a OptionRec option \<Rightarrow> string \<times> 'a OptionRec option \<Rightarrow> bool" where
  "same_option e e' =
     (fst e' = fst e \<and>
      (case snd e of
         None \<Rightarrow> False
       | Some opt \<Rightarrow>
           (case snd e' of
              None \<Rightarrow> False
            | Some opt' \<Rightarrow>
                same_instance (val opt) (val opt') \<and> (is_def opt \<longrightarrow> val opt' = val opt))))"

text \<open>The keys of a registry with the values of their options.\<close>

definition values_of :: "'a registry \<Rightarrow> (string \<times> 'a cfg_value option) list" where
  "values_of options = map (\<lambda>e. (fst e, map_option val (snd e))) options"

text \<open>
  What loading the lines of the entry \<open>e\<close> makes of the entry \<open>e'\<close> of the same key: an
  option that is not at its default in \<open>e\<close> is assigned its value.
\<close>

definition restore ::
  "string \<times> 'a OptionRec option \<Rightarrow> string \<times> 'a OptionRec option
     \<Rightarrow> string \<times> 'a OptionRec option" where
  "restore e e' =
     (case snd e of
        None \<Rightarrow> e'
      | Some opt \<Rightarrow>
          (case snd e' of
             None \<Rightarrow> e'
           | Some opt' \<Rightarrow>
               (fst e', Some (if is_def opt then opt' else set_value opt' (val opt)))))"

text \<open>
  What the stream loader's loop does with the lines of its input, one after the other;
  \<open>linenum\<close> is the loop's counter at the first of them.
\<close>

fun run_lines :: "string list \<Rightarrow> 32 word \<Rightarrow> 'a registry \<Rightarrow> exn + 'a registry" where
  "run_lines [] linenum options = Inr options"
| "run_lines (buff # ls) linenum options =
     (if is_skipped buff then run_lines ls (linenum + 1) options
      else
        (case parse_line (strip_spaces buff) linenum options of
           Inl e \<Rightarrow> Inl e
         | Inr options' \<Rightarrow> run_lines ls (linenum + 1) options'))"

text \<open>An input stream in the good state, as an \<^verbatim>\<open>istringstream\<close> starts.\<close>

abbreviation good_stream :: "string \<Rightarrow> istream" where
  "good_stream c \<equiv> \<lparr>content = c, eofbit = False, failbit = False\<rparr>"

text \<open>
  A registry with one option, \<^verbatim>\<open>opt3\<close> of \<^verbatim>\<open>test.cpp\<close>, set to a string of two lines.
\<close>

definition two_line_options :: "unit registry" where
  "two_line_options =
     map_assign ''opt3'' (Some (set_value opt3 (StringVal (''a'' @ endl @ ''b''))))
       (add_option opt3 [])"

subsection \<open>The options of the header's usage example\<close>

text \<open>
  The stream operators of \<^verbatim>\<open>unsigned int\<close>: the value is written in decimal;
  \<^verbatim>\<open>ss >> val\<close> skips white space, reads an optional sign and the longest run of digits,
  fails when there is no digit or the digits exceed the type's range, and negates a
  value with a minus sign modulo \<open>2 ^ 32\<close>.
\<close>

definition unsigned_wr :: "32 word \<Rightarrow> string" where
  "unsigned_wr v = show_nat (unat v)"

definition unsigned_rd :: "string \<Rightarrow> 32 word option" where
  "unsigned_rd str =
     (let s = dropWhile isspace str;
          neg = (s \<noteq> [] \<and> hd s = CHR ''-'');
          s1 = (if s \<noteq> [] \<and> (hd s = CHR ''-'' \<or> hd s = CHR ''+'') then tl s else s);
          ds = takeWhile is_digit s1
      in if ds = [] \<or> 2 ^ 32 \<le> read_nat ds then None
         else Some (if neg then - word_of_nat (read_nat ds) else word_of_nat (read_nat ds)))"

text \<open>
  \<^verbatim>\<open>INCFG_REQUIRE( unsigned int, BUFFER_SIZE, 4096, ... )\<close>,
  \<^verbatim>\<open>INCFG_REQUIRE( bool, DEBUG_LOG, false, ... )\<close> and
  \<^verbatim>\<open>INCFG_REQUIRE( std::string, LOGFILENAME, "log.txt", ... )\<close>.
\<close>

definition BUFFER_SIZE :: "32 word OptionRec" where
  "BUFFER_SIZE =
     new_option ''BUFFER_SIZE'' ''Buffer size used to write the log file''
       (StreamVal 4096 unsigned_wr unsigned_rd)"

definition DEBUG_LOG :: "32 word OptionRec" where
  "DEBUG_LOG = new_option ''DEBUG_LOG'' ''Enable verbose debug'' (BoolVal False)"

definition LOGFILENAME :: "32 word OptionRec" where
  "LOGFILENAME = new_option ''LOGFILENAME'' ''Default log filename'' (StringVal ''log.txt'')"

definition usage_options :: "32 word registry" where
  "usage_options = add_option LOGFILENAME (add_option DEBUG_LOG (add_option BUFFER_SIZE []))"

text \<open>
  The same registry after \<^verbatim>\<open>INCFG_SET( BUFFER_SIZE, 1024 )\<close> and
  \<^verbatim>\<open>INCFG_SET( LOGFILENAME, "test.txt" )\<close>, the values of the header's command line.
\<close>

definition usage_changed :: "32 word registry" where
  "usage_changed =
     map_assign ''LOGFILENAME'' (Some (set_value LOGFILENAME (StringVal ''test.txt'')))
       (map_assign ''BUFFER_SIZE''
          (Some (set_value BUFFER_SIZE (StreamVal 1024 unsigned_wr unsigned_rd)))
          usage_options)"

section \<open>Properties\<close>

subsection \<open>Evaluating comparisons of values\<close>

text \<open>
  Values of two different instances, or of the same built-in instance, are compared by
  their constructors; no equation compares the stream operators of two \<open>StreamVal\<close>s.
\<close>

lemma equal_cfg_value_code [code]:
  "HOL.equal (IntVal a) (IntVal a') \<longleftrightarrow> a = a'"
  "HOL.equal (BoolVal b) (BoolVal b') \<longleftrightarrow> b = b'"
  "HOL.equal (StringVal s) (StringVal s') \<longleftrightarrow> s = s'"
  "HOL.equal (IntVal a) (BoolVal b) \<longleftrightarrow> False"
  "HOL.equal (IntVal a) (StringVal s) \<longleftrightarrow> False"
  "HOL.equal (IntVal a) (StreamVal x wr rd) \<longleftrightarrow> False"
  "HOL.equal (BoolVal b) (IntVal a) \<longleftrightarrow> False"
  "HOL.equal (BoolVal b) (StringVal s) \<longleftrightarrow> False"
  "HOL.equal (BoolVal b) (StreamVal x wr rd) \<longleftrightarrow> False"
  "HOL.equal (StringVal s) (IntVal a) \<longleftrightarrow> False"
  "HOL.equal (StringVal s) (BoolVal b) \<longleftrightarrow> False"
  "HOL.equal (StringVal s) (StreamVal x wr rd) \<longleftrightarrow> False"
  "HOL.equal (StreamVal x wr rd) (IntVal a) \<longleftrightarrow> False"
  "HOL.equal (StreamVal x wr rd) (BoolVal b) \<longleftrightarrow> False"
  "HOL.equal (StreamVal x wr rd) (StringVal s) \<longleftrightarrow> False"
  by (simp_all add: equal)

subsection \<open>The boolean codec\<close>

text \<open>
  C8. The boolean codec encodes \<open>True\<close> as exactly \<open>true\<close> and \<open>False\<close> as exactly
  \<open>false\<close>; decoding succeeds on these two literals, and every other string (compared
  byte for byte, so \<open>True\<close> and \<open>30\<close> too) raises \<^verbatim>\<open>StringParseException\<close>.
\<close>

theorem bool_codec_strict:
  "to_string_helper_bool True = ''true'' \<and>
   to_string_helper_bool False = ''false'' \<and>
   from_string_helper_bool ''true'' = Inr True \<and>
   from_string_helper_bool ''false'' = Inr False \<and>
   (\<forall>str. str \<noteq> ''true'' \<and> str \<noteq> ''false'' \<longrightarrow>
      (\<exists>msg. from_string_helper_bool str = Inl (StringParseException msg)))"
  by (simp add: to_string_helper_bool_def from_string_helper_bool_def)

theorem bool_codec_strict_witness:
  "(\<exists>msg. from_string_helper_bool ''30'' = Inl (StringParseException msg)) \<and>
   (\<exists>msg. from_string_helper_bool ''True'' = Inl (StringParseException msg))"
  using bool_codec_strict by simp

subsection \<open>The sticky default flag\<close>

lemma set_value_keeps_not_default: "\<not> is_def opt \<Longrightarrow> \<not> is_def (set_value opt v)"
  by (simp add: set_value_def)

lemma apply_op_keeps_not_default: "\<not> is_def opt \<Longrightarrow> \<not> is_def (apply_op opt a)"
  by (cases a) (auto simp: set_value_def parse_value_from_str_def split: sum.splits)

lemma apply_ops_keeps_not_default: "\<not> is_def opt \<Longrightarrow> \<not> is_def (apply_ops opt ops)"
  unfolding apply_ops_def
  by (induction ops arbitrary: opt) (simp_all add: apply_op_keeps_not_default)

text \<open>While the flag is set, the value is the one the option was constructed with.\<close>

lemma apply_op_default_value:
  assumes "is_def opt \<longrightarrow> val opt = d"
  shows "is_def (apply_op opt a) \<longrightarrow> val (apply_op opt a) = d"
  using assms
  by (cases a) (auto simp: set_value_def parse_value_from_str_def split: sum.splits)

lemma apply_ops_default_value:
  assumes "is_def opt \<longrightarrow> val opt = d"
  shows "is_def (apply_ops opt ops) \<longrightarrow> val (apply_ops opt ops) = d"
  using assms unfolding apply_ops_def
proof (induction ops arbitrary: opt)
  case Nil
  then show ?case by simp
next
  case (Cons a ops)
  have "is_def (apply_op opt a) \<longrightarrow> val (apply_op opt a) = d"
    using Cons.prems by (rule apply_op_default_value)
  then show ?case using Cons.IH by simp
qed

text \<open>
  C4. Take an option constructed with the default \<open>d\<close>, after any history \<open>ops1\<close> of
  \<^verbatim>\<open>set\<close> and \<^verbatim>\<open>parse_value_from_str\<close> calls. Once a further call \<open>a\<close> leaves it with a
  value other than \<open>d\<close>, \<^verbatim>\<open>is_default()\<close> is false, and it is false after every
  continuation \<open>ops2\<close>, also one that assigns \<open>d\<close> again.
\<close>

theorem sticky_default:
  assumes "val (apply_op (apply_ops (new_option nm descr d) ops1) a) \<noteq> d"
  shows "\<not> is_default (apply_ops (apply_op (apply_ops (new_option nm descr d) ops1) a) ops2)"
proof -
  let ?o1 = "apply_ops (new_option nm descr d) ops1"
  have "is_def ?o1 \<longrightarrow> val ?o1 = d"
    by (rule apply_ops_default_value) (simp add: new_option_def)
  then have "is_def (apply_op ?o1 a) \<longrightarrow> val (apply_op ?o1 a) = d"
    by (rule apply_op_default_value)
  with assms have "\<not> is_def (apply_op ?o1 a)"
    by blast
  then have "\<not> is_def (apply_ops (apply_op ?o1 a) ops2)"
    by (rule apply_ops_keeps_not_default)
  then show ?thesis
    by (simp add: is_default_def)
qed

theorem sticky_default_witness:
  "val (apply_op (apply_ops (new_option ''opt1'' ''d'' (IntVal 10)) []) (Set (IntVal 30))) \<noteq> IntVal 10 \<and>
   \<not> is_default (apply_ops (apply_op (apply_ops (new_option ''opt1'' ''d'' (IntVal 10)) []) (Set (IntVal 30)))
                    [Set (IntVal 10), Parse ''10'']) \<and>
   val (apply_ops (apply_op (apply_ops (new_option ''opt1'' ''d'' (IntVal 10)) []) (Set (IntVal 30)))
                    [Set (IntVal 10)]) = IntVal 10"
proof -
  have h: "val (apply_op (apply_ops (new_option ''opt1'' ''d'' (IntVal 10)) []) (Set (IntVal 30))) \<noteq> IntVal 10"
    by (simp add: apply_ops_def new_option_def set_value_def)
  have v: "val (apply_ops (apply_op (apply_ops (new_option ''opt1'' ''d'' (IntVal 10)) []) (Set (IntVal 30)))
                    [Set (IntVal 10)]) = IntVal 10"
    by (simp add: apply_ops_def new_option_def set_value_def)
  show ?thesis
    using h v sticky_default [OF h, of "[Set (IntVal 10), Parse ''10'']"] by blast
qed

subsection \<open>Evaluation lemmas\<close>

lemma test_options_eq:
  "test_options =
     [(''opt1'', Some opt1), (''opt3'', Some opt3), (''opt4'', Some opt4), (''opt5'', Some opt5)]"
  by code_simp

lemma digit_char_simps:
  "digit_char 0 = CHR ''0''" "digit_char 1 = CHR ''1''" "digit_char 2 = CHR ''2''"
  "digit_char 3 = CHR ''3''" "digit_char 4 = CHR ''4''" "digit_char 5 = CHR ''5''"
  "digit_char 6 = CHR ''6''" "digit_char 7 = CHR ''7''" "digit_char 8 = CHR ''8''"
  "digit_char 9 = CHR ''9''"
  by code_simp+

lemma show_nat_max: "show_nat 4294967295 = ''4294967295''"
  by (simp add: show_nat.simps digit_char_simps)

lemma unat_wrap: "unat (- 1 :: 32 word) = 4294967295"
  by (simp add: unsigned_minus_1_eq_mask mask_eq_exp_minus_1)

text \<open>One turn of the stream loader's loop, by the case the turn takes.\<close>

lemma load_loop_done:
  "eofbit isr \<Longrightarrow> failbit isr \<Longrightarrow> load_loop isr buff n opts = Some (Inr opts)"
  by (subst load_loop.simps) simp

lemma load_loop_skip:
  "\<not> (eofbit isr \<and> failbit isr) \<Longrightarrow> is_skipped buff \<Longrightarrow>
   load_loop isr buff n opts =
     load_loop (fst (getline isr buff)) (snd (getline isr buff)) (n + 1) opts"
  by (subst load_loop.simps) (auto simp: case_prod_beta)

lemma load_loop_error:
  "\<not> (eofbit isr \<and> failbit isr) \<Longrightarrow> \<not> is_skipped buff \<Longrightarrow>
   parse_line (strip_spaces buff) n opts = Inl e \<Longrightarrow>
   load_loop isr buff n opts = Some (Inl e)"
  by (subst load_loop.simps) auto

lemma load_loop_assign:
  "\<not> (eofbit isr \<and> failbit isr) \<Longrightarrow> \<not> is_skipped buff \<Longrightarrow>
   parse_line (strip_spaces buff) n opts = Inr opts' \<Longrightarrow>
   load_loop isr buff n opts =
     load_loop (fst (getline isr (strip_spaces buff))) (snd (getline isr (strip_spaces buff)))
       (n + 1) opts'"
  by (subst load_loop.simps) (auto simp: case_prod_beta)

subsection \<open>The command-line loader\<close>

lemma parse_value_error:
  "parse_value_from_str opt s = Inl e \<Longrightarrow> \<exists>m. e = StringParseException m"
  by (auto simp: parse_value_from_str_def from_string_helper_def from_string_helper_int_def
      from_string_helper_bool_def from_string_helper_string_def from_string_helper_stream_def
      split: cfg_value.splits option.splits sum.splits if_splits)

lemma dash_not_A: "length v > 1 \<Longrightarrow> v ! 0 = CHR ''-'' \<Longrightarrow> v @ x \<noteq> CHR ''A'' # y"
  by (cases v) auto

text \<open>No path through the loop reaches the "A value is expected" exception.\<close>

lemma load_args_loop_never_missing:
  "load_args_loop idx argc argv opts \<noteq> Inl (MissingValue key)"
proof (induction idx argc argv opts rule: load_args_loop.induct)
  case (1 idx argc argv options)
  show ?case
    apply (subst load_args_loop.simps)
    using 1
    by (auto simp: Let_def InvalidOption_def UnknownKey_def MissingValue_def InvalidValue_def
        argv_string_def dash_not_A dest: parse_value_error split: sum.splits option.splits)
qed

text \<open>
  C2. A registered non-boolean key as the final argument: the test \<^verbatim>\<open>idx==argc\<close> is
  never true inside the loop, so the loader goes on to read \<^verbatim>\<open>argv[argc]\<close>; the
  "A value is expected" exception is thrown on no input at all. A value that begins
  with two dashes is refused with the "is an invalid value" exception.
\<close>

theorem load_args_final_key:
  "load_args 2 [''exename'', ''--opt1''] test_options = Inl UndefinedBehaviour \<and>
   load_args 3 [''exename'', ''--opt1'', ''--opt3''] test_options
     = Inl (InvalidValue ''--opt3'' ''opt1'') \<and>
   (\<forall>argc argv options key. load_args argc argv options \<noteq> Inl (MissingValue key))"
proof -
  have 1: "load_args 2 [''exename'', ''--opt1''] test_options = Inl UndefinedBehaviour"
    by code_simp
  have 2: "load_args 3 [''exename'', ''--opt1'', ''--opt3''] test_options
             = Inl (InvalidValue ''--opt3'' ''opt1'')"
    by code_simp
  have 3: "load_args argc argv options \<noteq> Inl (MissingValue key)" for argc argv key
      and options :: "'b registry"
    by (simp add: load_args_def load_args_loop_never_missing)
  show ?thesis
    using 1 2 3 by blast
qed

text \<open>
  C3. A key token of fewer than three characters is refused. The test for the two
  dashes is \<^verbatim>\<open>key[0]!='-' && key[1]!='-'\<close>: a token with one dash among its first two
  characters passes it, and the loader assigns the option named by the rest.
\<close>

theorem load_args_one_dash:
  "load_args 3 [''exename'', ''-xopt1'', ''4''] test_options =
     Inr [(''opt1'', Some (opt1\<lparr>val := IntVal 4, is_def := False\<rparr>)), (''opt3'', Some opt3),
          (''opt4'', Some opt4), (''opt5'', Some opt5)] \<and>
   load_args 3 [''exename'', ''x-opt1'', ''4''] test_options =
     Inr [(''opt1'', Some (opt1\<lparr>val := IntVal 4, is_def := False\<rparr>)), (''opt3'', Some opt3),
          (''opt4'', Some opt4), (''opt5'', Some opt5)] \<and>
   load_args 2 [''exename'', ''-o''] test_options = Inl (InvalidOption ''-o'') \<and>
   load_args 3 [''exename'', ''opt1'', ''4''] test_options = Inl (InvalidOption ''opt1'')"
  by code_simp

subsection \<open>The line numbers of the stream loader's errors\<close>

lemma not_skipped_opt4: "\<not> is_skipped ''opt4=30''"
  by (simp add: is_skipped_def front_char_def nul_def newline_def carriage_return_def)

lemma strip_spaces_opt4: "strip_spaces ''opt4=30'' = ''opt4=30''"
  by (simp add: strip_spaces_def erase_remove_def dquote_def)

lemma parse_line_opt4:
  "parse_line ''opt4=30'' 0 test_options =
     Inl (ConfigFileError ''opt4'' 0
           (''Unable to parse 30 to '' @ [dquote] @ ''true'' @ [dquote] @ '' or ''
              @ [dquote] @ ''false'' @ [dquote]))"
  by (simp add: parse_line_def substr_def add_if_possible_def test_options_eq opt4_def
      new_option_def parse_value_from_str_def from_string_helper_def
      from_string_helper_bool_def)

text \<open>
  C6. Errors on the first line of the input (line 1, counting from one): the
  structural error reports line 0, and the codec error reports \<^verbatim>\<open>linenum-1\<close>, which
  is \<open>4294967295\<close> there. On the second line they report line 1 and line 0.
\<close>

theorem load_string_first_line_errors:
  "load_string ''novalue'' test_options =
     Some (Inl (ConfigOptionsLoadException
                 ''Parse error at line 0: No key found (<key> = <value> expected)'')) \<and>
   load_string ''opt4=30'' test_options =
     Some (Inl (StringParseException
                 (''Config file error for key <opt4> (Line 4294967295): Unable to parse 30 to ''
                    @ [dquote] @ ''true'' @ [dquote] @ '' or '' @ [dquote] @ ''false''
                    @ [dquote]))) \<and>
   load_string (''# first'' @ endl @ ''novalue'') test_options =
     Some (Inl (ConfigOptionsLoadException
                 ''Parse error at line 1: No key found (<key> = <value> expected)'')) \<and>
   load_string (''# first'' @ endl @ ''opt4=30'') test_options =
     Some (Inl (StringParseException
                 (''Config file error for key <opt4> (Line 0): Unable to parse 30 to ''
                    @ [dquote] @ ''true'' @ [dquote] @ '' or '' @ [dquote] @ ''false''
                    @ [dquote])))"
proof -
  have 1: "load_string ''novalue'' test_options =
     Some (Inl (ConfigOptionsLoadException
                 ''Parse error at line 0: No key found (<key> = <value> expected)''))"
    by code_simp
  have 2: "load_string ''opt4=30'' test_options =
     Some (Inl (StringParseException
                 (''Config file error for key <opt4> (Line 4294967295): Unable to parse 30 to ''
                    @ [dquote] @ ''true'' @ [dquote] @ '' or '' @ [dquote] @ ''false''
                    @ [dquote])))"
    by (simp add: load_string_def load_stream_def getline_def newline_def load_loop_error
        not_skipped_opt4 strip_spaces_opt4 parse_line_opt4 ConfigFileError_def show_nat_max
        unat_wrap)
  have 3: "load_string (''# first'' @ endl @ ''novalue'') test_options =
     Some (Inl (ConfigOptionsLoadException
                 ''Parse error at line 1: No key found (<key> = <value> expected)''))"
    by code_simp
  have 4: "load_string (''# first'' @ endl @ ''opt4=30'') test_options =
     Some (Inl (StringParseException
                 (''Config file error for key <opt4> (Line 0): Unable to parse 30 to ''
                    @ [dquote] @ ''true'' @ [dquote] @ '' or '' @ [dquote] @ ''false''
                    @ [dquote])))"
    by code_simp
  show ?thesis
    using 1 2 3 4 by blast
qed

subsection \<open>Lookup in the registry\<close>

lemma map_find_assign:
  "map_find k' (map_assign k v m) = (if k' = k then Some v else map_find k' m)"
  by (induction m) auto

lemma length_map_assign:
  "map_find k m = None \<Longrightarrow> length (map_assign k v m) = Suc (length m)"
  by (induction m) (auto split: if_splits)

text \<open>
  C10. \<^verbatim>\<open>get\<close> of a name that is not in the map returns the null pointer and leaves
  the map with one entry more, the name bound to the null pointer; every other key
  finds what it found before.
\<close>

theorem get_absent_inserts_null:
  assumes "map_find nm options = None"
  shows "fst (get nm options) = None \<and>
         size_options (snd (get nm options)) = size_options options + 1 \<and>
         map_find nm (snd (get nm options)) = Some None \<and>
         (\<forall>k. k \<noteq> nm \<longrightarrow> map_find k (snd (get nm options)) = map_find k options)"
  using assms
  by (simp add: get_def map_index_def size_options_def map_find_assign length_map_assign)

theorem get_absent_inserts_null_witness:
  "map_find ''opt2'' test_options = None \<and>
   fst (get ''opt2'' test_options) = None \<and>
   size_options test_options = 4 \<and>
   size_options (snd (get ''opt2'' test_options)) = 5 \<and>
   map_find ''opt2'' (snd (get ''opt2'' test_options)) = Some None \<and>
   map_find ''opt3'' (snd (get ''opt2'' test_options)) = Some (Some opt3)"
proof -
  have h: "map_find ''opt2'' test_options = None"
    by (simp add: test_options_eq)
  have s: "size_options test_options = 4"
    by (simp add: test_options_eq size_options_def)
  have f: "map_find ''opt3'' test_options = Some (Some opt3)"
    by (simp add: test_options_eq)
  show ?thesis
    using h s f get_absent_inserts_null [OF h] by simp
qed

text \<open>The loaders look a key up with \<^verbatim>\<open>find\<close> first and throw when it is not there.\<close>

lemma add_if_possible_unknown_key:
  "map_find nm options = None \<Longrightarrow> add_if_possible nm v options = Inl (UnknownKey nm)"
  by (simp add: add_if_possible_def)

lemma load_args_unknown_key:
  assumes "map_find nm options = None" and "nm \<noteq> []"
  shows "load_args 2 [prog, ''--'' @ nm] options = Inl (UnknownKey nm)"
proof -
  have "load_args_loop 1 2 [prog, ''--'' @ nm] options = Inl (UnknownKey nm)"
    using assms
    by (subst load_args_loop.simps) (simp add: argv_string_def substr_def)
  then show ?thesis
    by (simp add: load_args_def)
qed

text \<open>
  C7. \<^verbatim>\<open>get\<close> of a name that is not in the registry throws nothing, where the
  loaders' lookup of the same name throws "Unexpected key": it returns the null pointer
  and leaves the name in the map, bound to the null pointer. After that
  \<^verbatim>\<open>to_config_string\<close> and both loaders, which find the name, dereference the null
  pointer.
\<close>

theorem get_absent_no_unknown_key:
  "get ''opt9'' test_options =
     (None, [(''opt1'', Some opt1), (''opt3'', Some opt3), (''opt4'', Some opt4),
             (''opt5'', Some opt5), (''opt9'', None)]) \<and>
   add_if_possible ''opt9'' ''1'' test_options = Inl (UnknownKey ''opt9'') \<and>
   load_args 3 [''exename'', ''--opt9'', ''1''] test_options = Inl (UnknownKey ''opt9'') \<and>
   to_config_string (snd (get ''opt9'' test_options)) = Inl UndefinedBehaviour \<and>
   add_if_possible ''opt9'' ''1'' (snd (get ''opt9'' test_options)) = Inl UndefinedBehaviour \<and>
   load_args 3 [''exename'', ''--opt9'', ''1''] (snd (get ''opt9'' test_options))
     = Inl UndefinedBehaviour"
  by code_simp

subsection \<open>The registry is kept in key order and \<^verbatim>\<open>to_config_string\<close> writes it in that order\<close>

lemma map_find_None: "(map_find k m = None) = (k \<notin> fst ` set m)"
  by (induction m) (auto split: if_splits)

lemma keys_map_assign: "fst ` set (map_assign k v m) = insert k (fst ` set m)"
proof -
  have "(x \<in> fst ` set (map_assign k v m)) = (x \<in> insert k (fst ` set m))" for x
    using map_find_None [of x "map_assign k v m"] map_find_None [of x m]
    by (simp add: map_find_assign split: if_splits)
  then show ?thesis by blast
qed

lemma sorted_map_assign:
  "sorted_wrt (<) (map fst m) \<Longrightarrow> sorted_wrt (<) (map fst (map_assign k v m))"
proof (induction m)
  case Nil
  then show ?case by simp
next
  case (Cons e m)
  obtain k' v' where e: "e = (k', v')" by (cases e)
  have keys: "fst ` set (map_assign k v m) = insert k (fst ` set m)"
    by (rule keys_map_assign)
  show ?case
  proof (cases "k < k'")
    case True
    then show ?thesis using Cons.prems e by (auto simp del: Cons_less_Cons)
  next
    case False
    show ?thesis
    proof (cases "k = k'")
      case True
      then show ?thesis using Cons.prems e by (simp del: Cons_less_Cons)
    next
      case neq: False
      with False have "k' < k" by simp
      then show ?thesis using Cons False neq e keys
        by (auto simp del: Cons_less_Cons)
    qed
  qed
qed

lemma populated_sorted: "populated m \<Longrightarrow> sorted_wrt (<) (map fst m)"
  by (induction rule: populated.induct) (simp_all add: add_option_def sorted_map_assign del: Cons_less_Cons)

lemma non_null_map_assign: "non_null m \<Longrightarrow> non_null (map_assign k (Some x) m)"
  unfolding non_null_def by (induction m) auto

lemma populated_non_null: "populated m \<Longrightarrow> non_null m"
  by (induction rule: populated.induct) (simp_all add: add_option_def non_null_map_assign, simp add: non_null_def)

lemma to_config_string_loop_text:
  "non_null m \<Longrightarrow> to_config_string_loop m ss = Inr (ss @ config_text ''# '' m)"
proof (induction m arbitrary: ss)
  case Nil
  then show ?case by (simp add: config_text_def registry_lines_def unlines_def)
next
  case (Cons e m)
  obtain k p where e: "e = (k, p)" by (cases e)
  from Cons.prems e obtain opt where p: "p = Some opt" by (auto simp: non_null_def)
  from Cons.prems have nn: "non_null m" by (simp add: non_null_def)
  show ?case
    using Cons.IH [OF nn] e p
    by (simp add: config_text_def registry_lines_def unlines_def entry_lines_def endl_def Let_def)
qed

lemma populated_test_options: "populated test_options"
  by (simp add: test_options_def populated.intros)

text \<open>
  For a registry of declared options, \<^verbatim>\<open>to_config_string\<close> returns the lines of the
  entries one after the other, in the order of the keys, which is ascending; the second
  comment line of an entry is \<^verbatim>\<open>#\<close> followed by one space.
\<close>

lemma to_config_string_text:
  assumes "populated options"
  shows "to_config_string options = Inr (config_text ''# '' options) \<and>
         sorted_wrt (<) (map fst options)"
proof -
  have "non_null options"
    using assms by (rule populated_non_null)
  then have "to_config_string_loop options [] = Inr ([] @ config_text ''# '' options)"
    by (rule to_config_string_loop_text)
  then show ?thesis
    using populated_sorted [OF assms] by (simp add: to_config_string_def)
qed

text \<open>
  C5. The text of an entry with a description, at its default and after a
  \<^verbatim>\<open>set\<close>: the second comment line \<^verbatim>\<open>to_config_string\<close> writes is \<^verbatim>\<open>#\<close> followed by a
  space, where the claim and the example output in the header have a bare \<^verbatim>\<open>#\<close>. The
  other lines are as claimed.
\<close>

theorem to_config_string_hash_space:
  "to_config_string (add_option opt4 []) =
     Inr (''# boolean true option'' @ endl @ ''# '' @ endl @ ''#opt4=true'' @ endl @ endl) \<and>
   config_text ''#'' (add_option opt4 []) =
     ''# boolean true option'' @ endl @ ''#'' @ endl @ ''#opt4=true'' @ endl @ endl \<and>
   to_config_string (add_option opt4 []) \<noteq> Inr (config_text ''#'' (add_option opt4 [])) \<and>
   to_config_string (map_assign ''opt4'' (Some (set_value opt4 (BoolVal False))) (add_option opt4 [])) =
     Inr (''# boolean true option'' @ endl @ ''# '' @ endl @ ''opt4=false'' @ endl @ endl) \<and>
   config_text ''#'' (map_assign ''opt4'' (Some (set_value opt4 (BoolVal False))) (add_option opt4 [])) =
     ''# boolean true option'' @ endl @ ''#'' @ endl @ ''opt4=false'' @ endl @ endl"
  by code_simp

subsection \<open>Spaces are removed outside the quotes only\<close>

lemma find_first_of_None: "c \<notin> set s \<Longrightarrow> find_first_of s c = None"
  by (induction s) auto

lemma find_first_of_append: "c \<notin> set xs \<Longrightarrow> find_first_of (xs @ c # ys) c = Some (length xs)"
  by (induction xs) auto

lemma find_last_of_None: "c \<notin> set s \<Longrightarrow> find_last_of s c = None"
  by (induction s) auto

lemma find_last_of_append: "c \<notin> set ys \<Longrightarrow> find_last_of (xs @ c # ys) c = Some (length xs)"
  by (induction xs) (auto simp: find_last_of_None)

lemma takeWhile_first: "c \<notin> set xs \<Longrightarrow> takeWhile (\<lambda>x. x \<noteq> c) (xs @ c # ys) = xs"
  by (induction xs) auto

lemma takeWhile_rev_last:
  "c \<notin> set ys \<Longrightarrow> rev (takeWhile (\<lambda>x. x \<noteq> c) (rev (xs @ c # ys))) = ys"
  by (simp add: takeWhile_first)

lemma strip_no_quote:
  assumes "dquote \<notin> set line"
  shows "strip_spaces line = filter (\<lambda>c. c \<noteq> CHR '' '') line"
proof -
  have "dquote \<notin> set (filter (\<lambda>c. c \<noteq> CHR '' '') line)"
    using assms by simp
  then show ?thesis
    using assms
    by (simp add: strip_spaces_def erase_remove_def find_first_of_None find_last_of_None)
qed

lemma strip_one_quote:
  assumes "dquote \<notin> set before" and "dquote \<notin> set after"
  shows "strip_spaces (before @ dquote # after) =
           filter (\<lambda>c. c \<noteq> CHR '' '') before @ dquote # filter (\<lambda>c. c \<noteq> CHR '' '') after"
proof -
  have q: "dquote \<noteq> CHR '' ''" by (simp add: dquote_def)
  have l: "find_last_of (filter (\<lambda>c. c \<noteq> CHR '' '') before @ dquote # after) dquote
             = Some (length (filter (\<lambda>c. c \<noteq> CHR '' '') before))"
    using assms by (simp add: find_last_of_append)
  show ?thesis
    using assms q l
    by (simp add: strip_spaces_def erase_remove_def find_first_of_append)
qed

lemma strip_two_quotes:
  assumes "dquote \<notin> set before" and "dquote \<notin> set after"
  shows "strip_spaces (before @ dquote # mid @ dquote # after) =
           filter (\<lambda>c. c \<noteq> CHR '' '') before @ dquote # mid @ dquote
             # filter (\<lambda>c. c \<noteq> CHR '' '') after"
proof -
  have q: "dquote \<noteq> CHR '' ''" by (simp add: dquote_def)
  let ?fb = "filter (\<lambda>c. c \<noteq> CHR '' '') before"
  have l: "find_last_of ((?fb @ dquote # mid) @ dquote # after) dquote
             = Some (length (?fb @ dquote # mid))"
    using assms(2) by (rule find_last_of_append)
  show ?thesis
    using assms q l
    by (simp add: strip_spaces_def erase_remove_def find_first_of_append)
qed

lemma spec_strip_no_quote:
  "dquote \<notin> set line \<Longrightarrow> spec_strip_spaces line = filter (\<lambda>c. c \<noteq> CHR '' '') line"
  by (simp add: spec_strip_spaces_def Let_def)

lemma spec_strip_one_quote:
  assumes "dquote \<notin> set before" and "dquote \<notin> set after"
  shows "spec_strip_spaces (before @ dquote # after) =
           filter (\<lambda>c. c \<noteq> CHR '' '') before @ dquote # filter (\<lambda>c. c \<noteq> CHR '' '') after"
  using assms by (simp add: spec_strip_spaces_def takeWhile_first Let_def)

lemma spec_strip_two_quotes:
  assumes "dquote \<notin> set before" and "dquote \<notin> set after"
  shows "spec_strip_spaces (before @ dquote # mid @ dquote # after) =
           filter (\<lambda>c. c \<noteq> CHR '' '') before @ dquote # mid @ dquote
             # filter (\<lambda>c. c \<noteq> CHR '' '') after"
proof -
  have a: "rev (takeWhile (\<lambda>c. c \<noteq> dquote) (rev ((before @ dquote # mid) @ dquote # after))) = after"
    using assms(2) by (rule takeWhile_rev_last)
  show ?thesis
    using assms a by (simp add: spec_strip_spaces_def takeWhile_first Let_def)
qed

lemma strip_spaces_spec: "strip_spaces line = spec_strip_spaces line"
proof (cases "dquote \<in> set line")
  case False
  then show ?thesis by (simp add: strip_no_quote spec_strip_no_quote)
next
  case True
  then obtain before rest where 1: "line = before @ dquote # rest" "dquote \<notin> set before"
    by (auto dest: split_list_first)
  show ?thesis
  proof (cases "dquote \<in> set rest")
    case False
    then show ?thesis using 1 by (simp add: strip_one_quote spec_strip_one_quote)
  next
    case True
    then obtain mid after where 2: "rest = mid @ dquote # after" "dquote \<notin> set after"
      by (auto dest: split_list_last)
    show ?thesis using 1 2 by (simp add: strip_two_quotes spec_strip_two_quotes)
  qed
qed

text \<open>
  C9. The two \<^verbatim>\<open>erase\<close> statements remove the spaces of a line before its first
  double quote (of the whole line when it has none) and after its last double quote,
  and nothing else. Loading the line \<^verbatim>\<open>opt = " test test "\<close> gives a string option
  \<open>opt\<close> the value of the eleven characters between the quotes, spaces included;
  spaces around the line change nothing.
\<close>

theorem strip_spaces_outside_quotes:
  "strip_spaces line = spec_strip_spaces line \<and>
   load_string (''opt = '' @ [dquote] @ '' test test '' @ [dquote])
       ([(''opt'', Some (new_option ''opt'' '''' (StringVal ''dflt'')))] :: unit registry)
     = Some (Inr [(''opt'', Some \<lparr>name = ''opt'', description = '''',
                                   val = StringVal '' test test '', is_def = False\<rparr>)]) \<and>
   load_string (''  opt = '' @ [dquote] @ '' test test '' @ [dquote] @ ''   '')
       ([(''opt'', Some (new_option ''opt'' '''' (StringVal ''dflt'')))] :: unit registry)
     = Some (Inr [(''opt'', Some \<lparr>name = ''opt'', description = '''',
                                   val = StringVal '' test test '', is_def = False\<rparr>)])"
proof -
  have 1: "load_string (''opt = '' @ [dquote] @ '' test test '' @ [dquote])
       ([(''opt'', Some (new_option ''opt'' '''' (StringVal ''dflt'')))] :: unit registry)
     = Some (Inr [(''opt'', Some \<lparr>name = ''opt'', description = '''',
                                   val = StringVal '' test test '', is_def = False\<rparr>)])"
    by code_simp
  have 2: "load_string (''  opt = '' @ [dquote] @ '' test test '' @ [dquote] @ ''   '')
       ([(''opt'', Some (new_option ''opt'' '''' (StringVal ''dflt'')))] :: unit registry)
     = Some (Inr [(''opt'', Some \<lparr>name = ''opt'', description = '''',
                                   val = StringVal '' test test '', is_def = False\<rparr>)])"
    by code_simp
  show ?thesis
    using 1 2 strip_spaces_spec by simp
qed

subsection \<open>Decoding what the codec encoded\<close>

lemma of_char_digit_char: "d < 10 \<Longrightarrow> (of_char (digit_char d) :: nat) = 48 + d"
  by (simp add: digit_char_def)

lemma is_digit_digit_char: "d < 10 \<Longrightarrow> is_digit (digit_char d)"
  by (simp add: is_digit_def of_char_digit_char)

lemma digit_val_digit_char: "d < 10 \<Longrightarrow> digit_val (digit_char d) = d"
  by (simp add: digit_val_def of_char_digit_char)

lemma show_nat_digits: "list_all is_digit (show_nat n)"
proof (induction n rule: show_nat.induct)
  case (1 n)
  show ?case
  proof (cases "n < 10")
    case True
    then show ?thesis by (simp add: show_nat.simps [of n] is_digit_digit_char)
  next
    case False
    then show ?thesis using 1 by (simp add: show_nat.simps [of n] is_digit_digit_char)
  qed
qed

lemma show_nat_not_Nil: "show_nat n \<noteq> []"
  by (subst show_nat.simps) simp

lemma read_nat_snoc: "read_nat (ds @ [c]) = 10 * read_nat ds + digit_val c"
  by (simp add: read_nat_def)

lemma read_nat_show_nat: "read_nat (show_nat n) = n"
proof (induction n rule: show_nat.induct)
  case (1 n)
  show ?case
  proof (cases "n < 10")
    case True
    then show ?thesis by (simp add: show_nat.simps [of n] read_nat_def digit_val_digit_char)
  next
    case False
    then show ?thesis using 1
      by (simp add: show_nat.simps [of n] read_nat_snoc digit_val_digit_char)
  qed
qed

lemma is_digit_not_space: "is_digit c \<Longrightarrow> \<not> isspace c"
  by (auto simp: is_digit_def isspace_def)

lemma is_digit_not_sign: "is_digit c \<Longrightarrow> c \<noteq> CHR ''-'' \<and> c \<noteq> CHR ''+''"
  by (auto simp: is_digit_def)

lemma takeWhile_all: "list_all P xs \<Longrightarrow> takeWhile P xs = xs"
  by (induction xs) auto

lemma extract_int_digits:
  assumes "ds \<noteq> []" and "list_all is_digit ds" and "int (read_nat ds) < 2 ^ 31"
  shows "extract_int ds = Some (word_of_int (int (read_nat ds)))"
proof -
  have c: "is_digit (hd ds)"
    using assms(1,2) by (cases ds) auto
  have dw: "dropWhile isspace ds = ds"
    using assms(1) is_digit_not_space [OF c] by (cases ds) auto
  have tw: "takeWhile is_digit ds = ds"
    using assms(2) by (rule takeWhile_all)
  have "extract_int ds =
          (if ds = [] \<or> int (read_nat ds) < - (2 ^ 31) \<or> 2 ^ 31 \<le> int (read_nat ds) then None
           else Some (word_of_int (int (read_nat ds))))"
    unfolding extract_int_def Let_def dw
    using is_digit_not_sign [OF c] by (simp add: tw)
  then show ?thesis
    using assms(1,3) by simp
qed

lemma extract_int_minus_digits:
  assumes "ds \<noteq> []" and "list_all is_digit ds" and "int (read_nat ds) \<le> 2 ^ 31"
  shows "extract_int (CHR ''-'' # ds) = Some (word_of_int (- int (read_nat ds)))"
proof -
  have dw: "dropWhile isspace (CHR ''-'' # ds) = CHR ''-'' # ds"
    by (simp add: isspace_def)
  have tw: "takeWhile is_digit ds = ds"
    using assms(2) by (rule takeWhile_all)
  have "extract_int (CHR ''-'' # ds) =
          (if ds = [] \<or> - int (read_nat ds) < - (2 ^ 31) \<or> 2 ^ 31 \<le> - int (read_nat ds)
           then None else Some (word_of_int (- int (read_nat ds))))"
    unfolding extract_int_def Let_def dw by (simp add: tw)
  then show ?thesis
    using assms(1,3) by simp
qed

lemma extract_int_show_nat:
  assumes "int n < 2 ^ 31"
  shows "extract_int (show_nat n) = Some (word_of_int (int n))"
  using extract_int_digits [OF show_nat_not_Nil show_nat_digits, of n] assms
  by (simp add: read_nat_show_nat)

lemma extract_int_minus_show_nat:
  assumes "int n \<le> 2 ^ 31"
  shows "extract_int (CHR ''-'' # show_nat n) = Some (word_of_int (- int n))"
  using extract_int_minus_digits [OF show_nat_not_Nil show_nat_digits, of n] assms
  by (simp add: read_nat_show_nat)

lemma from_string_to_string_int:
  "from_string_helper_int (to_string_helper_int w) = Inr w"
proof -
  have lo: "- (2 ^ 31) \<le> sint w" and hi: "sint w < 2 ^ 31"
    using sint_ge [of w] sint_lt [of w] by simp_all
  show ?thesis
  proof (cases "sint w < 0")
    case True
    have "int (nat (- sint w)) \<le> 2 ^ 31"
      using lo True by simp
    then have "extract_int (CHR ''-'' # show_nat (nat (- sint w)))
                 = Some (word_of_int (- int (nat (- sint w))))"
      by (rule extract_int_minus_show_nat)
    then show ?thesis
      using True by (simp add: from_string_helper_int_def to_string_helper_int_def show_int_def)
  next
    case False
    have "int (nat (sint w)) < 2 ^ 31"
      using hi False by simp
    then have "extract_int (show_nat (nat (sint w))) = Some (word_of_int (int (nat (sint w))))"
      by (rule extract_int_show_nat)
    then show ?thesis
      using False by (simp add: from_string_helper_int_def to_string_helper_int_def show_int_def)
  qed
qed

lemma from_string_to_string_bool:
  "from_string_helper_bool (to_string_helper_bool b) = Inr b"
  by (simp add: from_string_helper_bool_def to_string_helper_bool_def)

lemma from_string_to_string_string:
  "from_string_helper_string (to_string_helper_string s) = Inr s"
  by (simp add: from_string_helper_string_def to_string_helper_string_def substr_def nth_append)

lemma unsigned_rd_digits:
  assumes "ds \<noteq> []" and "list_all is_digit ds" and "read_nat ds < 2 ^ 32"
  shows "unsigned_rd ds = Some (word_of_nat (read_nat ds))"
proof -
  have c: "is_digit (hd ds)"
    using assms(1,2) by (cases ds) auto
  have dw: "dropWhile isspace ds = ds"
    using assms(1) is_digit_not_space [OF c] by (cases ds) auto
  have tw: "takeWhile is_digit ds = ds"
    using assms(2) by (rule takeWhile_all)
  have "unsigned_rd ds =
          (if ds = [] \<or> 2 ^ 32 \<le> read_nat ds then None
           else Some (word_of_nat (read_nat ds)))"
    unfolding unsigned_rd_def Let_def dw
    using is_digit_not_sign [OF c] by (simp add: tw)
  then show ?thesis
    using assms(1,3) by simp
qed

lemma unsigned_rd_wr: "unsigned_rd (unsigned_wr w) = Some w"
proof -
  have "unat w < 2 ^ 32"
    using unsigned_less [of w, where 'a = nat] by simp
  then show ?thesis
    using unsigned_rd_digits [OF show_nat_not_Nil show_nat_digits, of "unat w"]
    by (simp add: unsigned_wr_def read_nat_show_nat)
qed

text \<open>The text of a value, read as a value of the same instance, is the value.\<close>

lemma from_string_to_string:
  assumes "same_instance v v'" and "reloadable_value v"
  shows "from_string_helper (to_string_helper v) v' = Inr v"
  using assms
  by (cases v; cases v')
    (simp_all add: same_instance_def reloadable_value_def from_string_helper_def
      to_string_helper_def from_string_to_string_int from_string_to_string_bool
      from_string_to_string_string from_string_helper_stream_def to_string_helper_stream_def)

lemma parse_written_value:
  assumes "same_instance (val opt) (val opt')" and "reloadable_value (val opt)"
  shows "parse_value_from_str opt' (get_value_as_str opt) = Inr (set_value opt' (val opt))"
  using from_string_to_string [OF assms]
  by (simp add: parse_value_from_str_def get_value_as_str_def)

subsection \<open>Loading the text \<^verbatim>\<open>to_config_string\<close> wrote\<close>

text \<open>On a text of newline-ended lines the loader runs its loop body on each line in turn.\<close>

lemma getline_line:
  "newline \<notin> set l \<Longrightarrow>
   getline (good_stream (l @ newline # rest)) buff = (good_stream rest, l)"
  by (simp add: getline_def find_first_of_append)

lemma getline_end:
  "getline (good_stream []) buff = (\<lparr>content = [], eofbit = True, failbit = True\<rparr>, [])"
  by (simp add: getline_def)

lemma unlines_Cons: "unlines (l # ls) = l @ newline # unlines ls"
  by (simp add: unlines_def)

lemma unlines_Nil: "unlines [] = []"
  by (simp add: unlines_def)

lemma load_loop_last_line:
  "load_loop (good_stream []) buff n opts = Some (run_lines [buff] n opts)"
proof (cases "is_skipped buff")
  case True
  then show ?thesis
    by (simp add: load_loop_skip getline_end load_loop_done)
next
  case False
  show ?thesis
  proof (cases "parse_line (strip_spaces buff) n opts")
    case (Inl e)
    then show ?thesis using False by (simp add: load_loop_error)
  next
    case (Inr opts')
    then show ?thesis using False
      by (simp add: load_loop_assign getline_end load_loop_done)
  qed
qed

lemma load_loop_lines:
  "list_all single_line ls \<Longrightarrow>
   load_loop (good_stream (unlines ls)) buff n opts = Some (run_lines (buff # ls) n opts)"
proof (induction ls arbitrary: buff n opts)
  case Nil
  then show ?case by (simp add: unlines_Nil load_loop_last_line)
next
  case (Cons l ls)
  from Cons.prems have sl: "single_line l" and ls: "list_all single_line ls"
    by simp_all
  from sl have l: "newline \<notin> set l"
    by (simp add: single_line_def)
  note IH = Cons.IH [OF ls]
  show ?case
  proof (cases "is_skipped buff")
    case True
    then show ?thesis
      by (simp add: load_loop_skip unlines_Cons getline_line [OF l] IH)
  next
    case False
    show ?thesis
    proof (cases "parse_line (strip_spaces buff) n opts")
      case (Inl e)
      then show ?thesis using False by (simp add: load_loop_error)
    next
      case (Inr opts')
      then show ?thesis using False
        by (simp add: load_loop_assign unlines_Cons getline_line [OF l] IH)
    qed
  qed
qed

lemma load_string_lines:
  assumes "list_all single_line ls"
  shows "load_string (unlines ls) opts = Some (run_lines ls 0 opts)"
proof (cases ls)
  case Nil
  then show ?thesis
    by (simp add: load_string_def load_stream_def unlines_Nil getline_end load_loop_done)
next
  case (Cons l ls')
  with assms have sl: "single_line l" and ls: "list_all single_line ls'"
    by simp_all
  from sl have l: "newline \<notin> set l"
    by (simp add: single_line_def)
  show ?thesis
    using Cons
    by (simp add: load_string_def load_stream_def unlines_Cons getline_line [OF l]
        load_loop_lines [OF ls])
qed

lemma ident_char_plain:
  assumes "ident_char c"
  shows "c \<noteq> CHR '' ''" and "c \<noteq> CHR ''=''" and "c \<noteq> dquote" and "c \<noteq> newline"
    and "c \<noteq> CHR ''#''" and "c \<noteq> nul" and "c \<noteq> carriage_return"
  using assms
  by (auto simp: ident_char_def is_digit_def dquote_def newline_def nul_def carriage_return_def)

lemma is_digit_plain:
  assumes "is_digit c"
  shows "c \<noteq> CHR '' ''" and "c \<noteq> dquote" and "c \<noteq> newline"
  using assms by (auto simp: is_digit_def dquote_def newline_def)

lemma plain_show_nat: "list_all plain_char (show_nat n)"
  using show_nat_digits [of n] is_digit_plain
  by (auto simp: list_all_iff plain_char_def)

lemma plain_to_string_int: "list_all plain_char (to_string_helper_int w)"
  using plain_show_nat
  by (simp add: to_string_helper_int_def show_int_def plain_char_def dquote_def newline_def)

lemma plain_to_string_bool: "list_all plain_char (to_string_helper_bool b)"
  by (simp add: to_string_helper_bool_def plain_char_def dquote_def newline_def)

lemma plain_option_name: "is_option_name k \<Longrightarrow> list_all plain_char k"
  using ident_char_plain by (auto simp: is_option_name_def list_all_iff plain_char_def)

lemma filter_plain: "list_all plain_char s \<Longrightarrow> filter (\<lambda>c. c \<noteq> CHR '' '') s = s"
  by (induction s) (auto simp: plain_char_def)

lemma plain_no_quote: "list_all plain_char s \<Longrightarrow> dquote \<notin> set s"
  by (auto simp: list_all_iff plain_char_def)

lemma plain_single_line: "list_all plain_char s \<Longrightarrow> single_line s"
  by (auto simp: list_all_iff plain_char_def single_line_def)

lemma strip_plain: "list_all plain_char s \<Longrightarrow> strip_spaces s = s"
  by (simp add: strip_no_quote plain_no_quote filter_plain)

text \<open>The text of a value is plain, or it is a string between two double quotes.\<close>

lemma to_string_helper_cases:
  assumes "reloadable_value v"
  shows "list_all plain_char (to_string_helper v) \<or>
         (\<exists>s. single_line s \<and> to_string_helper v = dquote # s @ [dquote])"
  using assms plain_to_string_int plain_to_string_bool
  by (cases v)
    (simp_all add: to_string_helper_def reloadable_value_def to_string_helper_string_def
      to_string_helper_stream_def)

lemma strip_own_line:
  assumes "is_option_name k" and "reloadable_value v"
  shows "strip_spaces (k @ ''='' @ to_string_helper v) = k @ ''='' @ to_string_helper v"
proof -
  have k: "list_all plain_char (k @ ''='')"
    using plain_option_name [OF assms(1)] by (simp add: plain_char_def dquote_def newline_def)
  from to_string_helper_cases [OF assms(2)] show ?thesis
  proof
    assume "list_all plain_char (to_string_helper v)"
    then have "list_all plain_char ((k @ ''='') @ to_string_helper v)"
      using k by simp
    then show ?thesis using strip_plain by simp
  next
    assume "\<exists>s. single_line s \<and> to_string_helper v = dquote # s @ [dquote]"
    then obtain s where s: "to_string_helper v = dquote # s @ [dquote]"
      by blast
    have nq: "dquote \<notin> set (k @ ''='')"
      using k by (rule plain_no_quote)
    have "strip_spaces ((k @ ''='') @ dquote # s @ dquote # []) =
            filter (\<lambda>c. c \<noteq> CHR '' '') (k @ ''='') @ dquote # s @ dquote
              # filter (\<lambda>c. c \<noteq> CHR '' '') []"
      by (rule strip_two_quotes [OF nq]) simp
    then show ?thesis
      using s filter_plain [OF k] by simp
  qed
qed

lemma single_line_to_string:
  assumes "reloadable_value v"
  shows "single_line (to_string_helper v)"
  using to_string_helper_cases [OF assms] plain_single_line
  by (auto simp: single_line_def dquote_def newline_def)

lemma map_find_member:
  "sorted_wrt (<) (map fst m) \<Longrightarrow> (k, v) \<in> set m \<Longrightarrow> map_find k m = Some v"
  by (induction m) (auto simp del: Cons_less_Cons)

text \<open>An assignment to a key of the map replaces the entry where it stands.\<close>

lemma map_assign_at:
  "sorted_wrt (<) (map fst (before @ (k, v0) # rest)) \<Longrightarrow>
   map_assign k v (before @ (k, v0) # rest) = before @ (k, v) # rest"
proof (induction before)
  case Nil
  then show ?case by simp
next
  case (Cons e before)
  obtain k' v' where e: "e = (k', v')" by (cases e)
  from Cons.prems e have "k' < k"
    by (simp add: sorted_wrt_append del: Cons_less_Cons)
  then have "\<not> k < k'" and "k \<noteq> k'"
    by auto
  then show ?case
    using Cons e by (simp del: Cons_less_Cons)
qed

lemma parse_written_line:
  assumes "is_option_name k" and "reloadable_value (val opt)"
    and "same_instance (val opt) (val opt')"
    and "sorted_wrt (<) (map fst (before @ (k, Some opt') # rest))"
  shows "parse_line (strip_spaces (k @ ''='' @ get_value_as_str opt)) n
           (before @ (k, Some opt') # rest)
         = Inr (before @ (k, Some (set_value opt' (val opt))) # rest)"
proof -
  let ?enc = "get_value_as_str opt"
  let ?cur = "before @ (k, Some opt') # rest"
  have eq: "CHR ''='' \<notin> set k"
    using assms(1) ident_char_plain(2) by (auto simp: is_option_name_def list_all_iff)
  have i: "find_first_of (k @ CHR ''='' # ?enc) CHR ''='' = Some (length k)"
    using eq by (rule find_first_of_append)
  have k: "k \<noteq> []"
    using assms(1) by (simp add: is_option_name_def)
  have f: "map_find k ?cur = Some (Some opt')"
    using assms(4) by (rule map_find_member) simp
  have a: "add_if_possible k ?enc ?cur = Inr (before @ (k, Some (set_value opt' (val opt))) # rest)"
    using f parse_written_value [OF assms(3,2)] map_assign_at [OF assms(4)]
    by (simp add: add_if_possible_def)
  have "parse_line (k @ CHR ''='' # ?enc) n ?cur
          = Inr (before @ (k, Some (set_value opt' (val opt))) # rest)"
    using i k a by (simp add: parse_line_def substr_def)
  then show ?thesis
    using strip_own_line [OF assms(1,2)] by (simp add: get_value_as_str_def)
qed

lemma not_skipped_option_name: "is_option_name k \<Longrightarrow> \<not> is_skipped (k @ rest)"
  using ident_char_plain(5,6,7,4)
  by (cases k) (auto simp: is_option_name_def is_skipped_def front_char_def)

lemma is_skipped_simps:
  "is_skipped []" "is_skipped (CHR ''#'' # s)"
  by (simp_all add: is_skipped_def front_char_def)

text \<open>The lines of one entry, run on a registry that holds the entry's key.\<close>

lemma run_entry_lines:
  assumes "reloadable (k, Some opt)" and "same_instance (val opt) (val opt')"
    and "sorted_wrt (<) (map fst (before @ (k, Some opt') # rest))"
  shows "run_lines (entry_lines ''# '' k opt @ ls) n (before @ (k, Some opt') # rest)
           = run_lines ls (n + of_nat (length (entry_lines ''# '' k opt)))
               (before @ restore (k, Some opt) (k, Some opt') # rest)"
proof -
  have k: "is_option_name k" and v: "reloadable_value (val opt)"
    using assms(1) by (simp_all add: reloadable_def)
  note p = parse_written_line [OF k v assms(2,3)]
  note ns = not_skipped_option_name [OF k]
  show ?thesis
    using p ns
    by (simp add: entry_lines_def is_skipped_simps add.assoc restore_def is_default_def)
qed

lemma registry_lines_Cons:
  "registry_lines h ((k, Some opt) # es) = entry_lines h k opt @ registry_lines h es"
  by (simp add: registry_lines_def)

lemma registry_lines_Nil: "registry_lines h [] = []"
  by (simp add: registry_lines_def)

lemma fst_restore: "fst (restore e e') = fst e'"
  by (simp add: restore_def split: option.splits)

text \<open>
  The lines of the entries \<open>es\<close>, run on a registry that holds their keys in \<open>tgt\<close>, after
  the entries \<open>before\<close>.
\<close>

lemma run_registry_lines:
  assumes "list_all2 same_option es tgt"
  shows "list_all reloadable es \<Longrightarrow> sorted_wrt (<) (map fst (before @ tgt)) \<Longrightarrow>
         run_lines (registry_lines ''# '' es) n (before @ tgt)
           = Inr (before @ map2 restore es tgt)"
  using assms
proof (induction es tgt arbitrary: before n rule: list_all2_induct)
  case Nil
  then show ?case by (simp add: registry_lines_Nil)
next
  case (Cons e es e' tgt)
  from Cons.hyps(1) obtain k opt opt' where e: "e = (k, Some opt)" and e': "e' = (k, Some opt')"
    and si: "same_instance (val opt) (val opt')"
    by (cases e; cases e') (auto simp: same_option_def split: option.splits)
  have r: "reloadable (k, Some opt)" and rs: "list_all reloadable es"
    using Cons.prems(1) e by simp_all
  have s: "sorted_wrt (<) (map fst (before @ (k, Some opt') # tgt))"
    using Cons.prems(2) e' by simp
  have s': "sorted_wrt (<) (map fst ((before @ [restore e e']) @ tgt))"
    using Cons.prems(2) by (simp add: fst_restore del: Cons_less_Cons)
  have "run_lines (registry_lines ''# '' (e # es)) n (before @ e' # tgt)
          = run_lines (registry_lines ''# '' es) (n + of_nat (length (entry_lines ''# '' k opt)))
              ((before @ [restore e e']) @ tgt)"
    using run_entry_lines [OF r si s] by (simp add: e e' registry_lines_Cons)
  also have "\<dots> = Inr ((before @ [restore e e']) @ map2 restore es tgt)"
    using rs s' by (rule Cons.IH)
  finally show ?case by simp
qed

lemma values_of_restore:
  "list_all2 same_option es tgt \<Longrightarrow> values_of (map2 restore es tgt) = values_of es"
proof (induction es tgt rule: list_all2_induct)
  case Nil
  then show ?case by (simp add: values_of_def)
next
  case (Cons e es e' tgt)
  then show ?case
    by (cases e; cases e')
      (auto simp: values_of_def same_option_def restore_def set_value_def split: option.splits)
qed

lemma same_option_keys: "list_all2 same_option es tgt \<Longrightarrow> map fst tgt = map fst es"
  by (induction es tgt rule: list_all2_induct) (simp_all add: same_option_def)

lemma single_line_entry_lines:
  assumes "reloadable (k, Some opt)"
  shows "list_all single_line (entry_lines ''# '' k opt)"
proof -
  have k: "single_line k"
    using assms plain_single_line [OF plain_option_name] by (simp add: reloadable_def)
  have d: "single_line (description opt)"
    using assms by (simp add: reloadable_def)
  have "single_line (to_string_helper (val opt))"
    using assms by (intro single_line_to_string) (simp add: reloadable_def)
  then show ?thesis
    using k d
    by (simp add: entry_lines_def get_value_as_str_def single_line_def newline_def)
qed

lemma single_line_registry_lines:
  "list_all reloadable es \<Longrightarrow> list_all single_line (registry_lines ''# '' es)"
proof (induction es)
  case Nil
  then show ?case by (simp add: registry_lines_def)
next
  case (Cons e es)
  from Cons.prems obtain k opt where e: "e = (k, Some opt)"
    by (cases e) (auto simp: reloadable_def split: option.splits)
  show ?case
    using Cons e single_line_entry_lines [of k opt]
    by (simp add: registry_lines_Cons)
qed

text \<open>
  C1, amended. Take a registry of declared options whose keys are option names, whose
  descriptions and string values hold no newline, and whose values of other types are
  read back from their text. Its config string, loaded into a registry of the same
  options that agrees with it on the options still at their default (the registry
  itself, or the registry as the static initialisers leave it), loads without an
  exception, and afterwards every option has the value it had in the registry the
  text was written from.
\<close>

theorem config_string_round_trip:
  assumes "populated options" and "list_all reloadable options"
    and "list_all2 same_option options target"
  shows "\<exists>s after. to_config_string options = Inr s \<and>
                   load_string s target = Some (Inr after) \<and>
                   values_of after = values_of options"
proof -
  have "sorted_wrt (<) (map fst options)"
    using assms(1) by (rule populated_sorted)
  then have s: "sorted_wrt (<) (map fst ([] @ target))"
    using same_option_keys [OF assms(3)] by simp
  have t: "to_config_string options = Inr (config_text ''# '' options)"
    using to_config_string_loop_text [OF populated_non_null [OF assms(1)], of "[]"]
    by (simp add: to_config_string_def)
  have "load_string (unlines (registry_lines ''# '' options)) target
          = Some (run_lines (registry_lines ''# '' options) 0 target)"
    using single_line_registry_lines [OF assms(2)] by (rule load_string_lines)
  also have "run_lines (registry_lines ''# '' options) 0 target
               = Inr ([] @ map2 restore options target)"
    using run_registry_lines [OF assms(3) assms(2) s] by simp
  finally have l: "load_string (config_text ''# '' options) target
                     = Some (Inr (map2 restore options target))"
    by (simp add: config_text_def)
  show ?thesis
    using t l values_of_restore [OF assms(3)] by blast
qed

lemma changed_options_eq:
  "changed_options =
     [(''opt1'', Some (opt1\<lparr>val := IntVal 30, is_def := False\<rparr>)),
      (''opt3'', Some (opt3\<lparr>val := StringVal ''test'', is_def := False\<rparr>)),
      (''opt4'', Some (opt4\<lparr>val := BoolVal False, is_def := False\<rparr>)),
      (''opt5'', Some (opt5\<lparr>val := BoolVal True, is_def := False\<rparr>))]"
  by code_simp

text \<open>The registries of the examples meet the conditions.\<close>

lemma populated_changed_options: "populated changed_options"
proof -
  note p0 = populated_test_options
  have "map_find ''opt1'' test_options = Some (Some opt1)"
    by (simp add: test_options_eq)
  note p1 = populated_set [OF p0 this, of "IntVal 30"]
  have "map_find ''opt3'' (map_assign ''opt1'' (Some (set_value opt1 (IntVal 30))) test_options)
          = Some (Some opt3)"
    by (simp add: map_find_assign test_options_eq)
  note p2 = populated_set [OF p1 this, of "StringVal ''test''"]
  have "map_find ''opt4''
          (map_assign ''opt3'' (Some (set_value opt3 (StringVal ''test'')))
             (map_assign ''opt1'' (Some (set_value opt1 (IntVal 30))) test_options))
          = Some (Some opt4)"
    by (simp add: map_find_assign test_options_eq)
  note p3 = populated_set [OF p2 this, of "BoolVal False"]
  have "map_find ''opt5''
          (map_assign ''opt4'' (Some (set_value opt4 (BoolVal False)))
             (map_assign ''opt3'' (Some (set_value opt3 (StringVal ''test'')))
                (map_assign ''opt1'' (Some (set_value opt1 (IntVal 30))) test_options)))
          = Some (Some opt5)"
    by (simp add: map_find_assign test_options_eq)
  note p4 = populated_set [OF p3 this, of "BoolVal True"]
  then show ?thesis
    by (simp add: changed_options_def)
qed

lemmas fixture_defs =
  opt1_def opt3_def opt4_def opt5_def BUFFER_SIZE_def DEBUG_LOG_def LOGFILENAME_def
  new_option_def

lemmas reloadable_defs =
  reloadable_def reloadable_value_def is_option_name_def ident_char_def is_digit_def
  single_line_def newline_def

lemma reloadable_changed_options: "list_all reloadable changed_options"
  by (simp add: changed_options_eq reloadable_defs fixture_defs)

lemma same_option_changed_options: "list_all2 same_option changed_options test_options"
  by (simp add: changed_options_eq test_options_eq same_option_def same_instance_def
      fixture_defs)

lemma usage_options_eq:
  "usage_options =
     [(''BUFFER_SIZE'', Some BUFFER_SIZE), (''DEBUG_LOG'', Some DEBUG_LOG),
      (''LOGFILENAME'', Some LOGFILENAME)]"
  by code_simp

lemma populated_usage_options: "populated usage_options"
  by (simp add: usage_options_def populated.intros)

lemma populated_usage_changed: "populated usage_changed"
proof -
  note p0 = populated_usage_options
  have "map_find ''BUFFER_SIZE'' usage_options = Some (Some BUFFER_SIZE)"
    by (simp add: usage_options_eq)
  note p1 = populated_set [OF p0 this, of "StreamVal 1024 unsigned_wr unsigned_rd"]
  have "map_find ''LOGFILENAME''
          (map_assign ''BUFFER_SIZE''
             (Some (set_value BUFFER_SIZE (StreamVal 1024 unsigned_wr unsigned_rd)))
             usage_options)
          = Some (Some LOGFILENAME)"
    by (simp add: map_find_assign usage_options_eq)
  note p2 = populated_set [OF p1 this, of "StringVal ''test.txt''"]
  then show ?thesis
    by (simp add: usage_changed_def)
qed

lemma usage_changed_eq:
  "usage_changed =
     [(''BUFFER_SIZE'',
       Some (BUFFER_SIZE\<lparr>val := StreamVal 1024 unsigned_wr unsigned_rd, is_def := False\<rparr>)),
      (''DEBUG_LOG'', Some DEBUG_LOG),
      (''LOGFILENAME'', Some (LOGFILENAME\<lparr>val := StringVal ''test.txt'', is_def := False\<rparr>))]"
proof -
  have s: "sorted_wrt (<) [''BUFFER_SIZE'', ''DEBUG_LOG'', ''LOGFILENAME'']"
    using populated_sorted [OF populated_usage_options]
    by (simp add: usage_options_eq del: Cons_less_Cons)
  have 1: "map_assign ''BUFFER_SIZE'' v
             ([] @ (''BUFFER_SIZE'', Some BUFFER_SIZE)
                # [(''DEBUG_LOG'', Some DEBUG_LOG), (''LOGFILENAME'', Some LOGFILENAME)])
           = [] @ (''BUFFER_SIZE'', v)
                # [(''DEBUG_LOG'', Some DEBUG_LOG), (''LOGFILENAME'', Some LOGFILENAME)]" for v
    by (rule map_assign_at) (use s in \<open>simp del: Cons_less_Cons\<close>)
  have 2: "map_assign ''LOGFILENAME'' v
             ([(''BUFFER_SIZE'', b), (''DEBUG_LOG'', Some DEBUG_LOG)]
                @ (''LOGFILENAME'', Some LOGFILENAME) # [])
           = [(''BUFFER_SIZE'', b), (''DEBUG_LOG'', Some DEBUG_LOG)]
                @ (''LOGFILENAME'', v) # []" for v b
    by (rule map_assign_at) (use s in \<open>simp del: Cons_less_Cons\<close>)
  show ?thesis
    using 1 2
    by (simp add: usage_changed_def usage_options_eq set_value_def fixture_defs
        del: Cons_less_Cons)
qed

lemma plain_unsigned_wr: "list_all plain_char (unsigned_wr w)"
  by (simp add: unsigned_wr_def plain_show_nat)

lemma reloadable_usage_changed: "list_all reloadable usage_changed"
  by (simp add: usage_changed_eq reloadable_defs fixture_defs unsigned_rd_wr plain_unsigned_wr)

lemma same_option_usage_changed: "list_all2 same_option usage_changed usage_options"
  by (simp add: usage_changed_eq usage_options_eq same_option_def same_instance_def
      fixture_defs)

theorem config_string_round_trip_witness:
  "populated usage_changed \<and> list_all reloadable usage_changed \<and>
   list_all2 same_option usage_changed usage_options \<and>
   (\<exists>s after. to_config_string usage_changed = Inr s \<and>
              load_string s usage_options = Some (Inr after) \<and>
              values_of after = values_of usage_changed) \<and>
   values_of usage_changed =
     [(''BUFFER_SIZE'', Some (StreamVal 1024 unsigned_wr unsigned_rd)),
      (''DEBUG_LOG'', Some (BoolVal False)),
      (''LOGFILENAME'', Some (StringVal ''test.txt''))] \<and>
   populated changed_options \<and> list_all reloadable changed_options \<and>
   list_all2 same_option changed_options test_options \<and>
   (\<exists>s after. to_config_string changed_options = Inr s \<and>
              load_string s test_options = Some (Inr after) \<and>
              values_of after = values_of changed_options) \<and>
   values_of changed_options =
     [(''opt1'', Some (IntVal 30)), (''opt3'', Some (StringVal ''test'')),
      (''opt4'', Some (BoolVal False)), (''opt5'', Some (BoolVal True))]"
proof -
  have v1: "values_of usage_changed =
     [(''BUFFER_SIZE'', Some (StreamVal 1024 unsigned_wr unsigned_rd)),
      (''DEBUG_LOG'', Some (BoolVal False)),
      (''LOGFILENAME'', Some (StringVal ''test.txt''))]"
    by (simp add: usage_changed_eq values_of_def fixture_defs)
  have v2: "values_of changed_options =
     [(''opt1'', Some (IntVal 30)), (''opt3'', Some (StringVal ''test'')),
      (''opt4'', Some (BoolVal False)), (''opt5'', Some (BoolVal True))]"
    by (simp add: changed_options_eq values_of_def fixture_defs)
  show ?thesis
    using populated_usage_changed reloadable_usage_changed same_option_usage_changed
      config_string_round_trip
        [OF populated_usage_changed reloadable_usage_changed same_option_usage_changed]
      populated_changed_options reloadable_changed_options same_option_changed_options
      config_string_round_trip
        [OF populated_changed_options reloadable_changed_options same_option_changed_options]
      v1 v2
    by blast
qed

text \<open>
  C1, as the claim states it, for any registry state: an option set to a string of two
  lines. Its assignment is written as two lines of text; the loader reads the first as
  the whole assignment and stops at the second with the "No key found" exception.
\<close>

theorem config_string_round_trip_counterexample:
  "two_line_options = [(''opt3'', Some (opt3\<lparr>val := StringVal (''a'' @ endl @ ''b''), is_def := False\<rparr>))] \<and>
   to_config_string two_line_options =
     Inr (''# option 3'' @ endl @ ''# '' @ endl
            @ ''opt3='' @ [dquote] @ ''a'' @ endl @ ''b'' @ [dquote] @ endl @ endl) \<and>
   load_string (''# option 3'' @ endl @ ''# '' @ endl
            @ ''opt3='' @ [dquote] @ ''a'' @ endl @ ''b'' @ [dquote] @ endl @ endl)
       two_line_options =
     Some (Inl (ConfigOptionsLoadException
                 ''Parse error at line 3: No key found (<key> = <value> expected)''))"
  by code_simp

end
